theory Spec2Isabelle
  imports Complex_Main
begin

section \<open>The sample-data loader of talawa-api (src/utilities/loadSampleData.ts)\<close>

text \<open>
  The script lists the fixture files of the \<^verbatim>\<open>sample_data\<close> directory, deletes the
  documents of ten Mongoose models, loads the selected collections from their JSON
  fixtures, prints the document counts and ends the process.  Everything it does is a
  call to the file system, to \<^verbatim>\<open>JSON.parse\<close>, to Mongoose or to the console.  The
  embedding keeps the control flow of the source (every \<^verbatim>\<open>await\<close>, \<^verbatim>\<open>try\<close>,
  \<^verbatim>\<open>catch\<close>, \<^verbatim>\<open>finally\<close>, the \<^verbatim>\<open>switch\<close> and the two loops) and makes the
  outside world explicit:
  \<^item> \<open>env\<close> holds what the outside world answers: the file system, the JSON parser and,
    for every database call, whether it fails;
  \<^item> \<open>world\<close> is the state the script changes: the stored documents, the open sessions,
    the console, the exit status, and a log of the driver calls made so far.
  A call that can throw returns \<open>error + 'a\<close>; \<open>Inl\<close> is the thrown value.
\<close>

subsection \<open>Values\<close>

text \<open>What \<^verbatim>\<open>JSON.parse\<close> returns.  Numbers are the finite ones.\<close>

datatype json =
    JNull
  | JBool bool
  | JNum rat
  | JStr string
  | JArr "json list"
  | JObj "(string \<times> json) list"

text \<open>A thrown \<^verbatim>\<open>Error\<close> object: its name and its message.\<close>

datatype error = Error string string

text \<open>\<^verbatim>\<open>`${err}`\<close> is \<^verbatim>\<open>Error.prototype.toString\<close>.\<close>

definition error_toString :: "error \<Rightarrow> string" where
  "error_toString e =
     (case e of Error name msg \<Rightarrow>
        if name = [] then msg else if msg = [] then name else name @ '': '' @ msg)"

text \<open>The ten Mongoose models the script imports.\<close>

datatype model =
    Community
  | User
  | Organization
  | ActionItemCategory
  | AgendaCategoryModel
  | Event
  | Venue
  | RecurrenceRule
  | Post
  | AppUserProfile

type_synonym session = nat

text \<open>The calls made to the database driver, in the order they are made.\<close>

datatype call =
    Connect string
  | StartSession session
  | StartTransaction session
  | DeleteMany model "session option"
  | CommitTransaction session
  | AbortTransaction session
  | EndSession session
  | InsertMany model "json list"
  | CountDocuments model

text \<open>The console: each call with its arguments.\<close>

datatype arg = Str string | Err error

datatype console_call = ConsoleLog "arg list" | ConsoleError "arg list"

subsection \<open>The state and the outside world\<close>

record world =
  db :: "model \<Rightarrow> json list"
  pending :: "model list"
  open_sessions :: "session list"
  next_session :: session
  connect_calls :: nat
  calls :: "call list"
  console :: "console_call list"
  exit_code :: "int option"

text \<open>
  \<open>db\<close> is the committed content of every collection.  \<open>pending\<close> holds the deletions
  enlisted in the running transaction: they reach \<open>db\<close> when the transaction commits and
  are dropped when it aborts.  \<open>exit_code\<close> is \<open>Some c\<close> once \<^verbatim>\<open>process.exit(c)\<close> ran.
\<close>

record env =
  dirname :: string
  path_resolve :: "string \<Rightarrow> string \<Rightarrow> string"
  readdir :: "string \<Rightarrow> error + string list"
  stat_isFile :: "string \<Rightarrow> error + bool"
  readFile :: "string \<Rightarrow> error + string"
  JSON_parse :: "string \<Rightarrow> error + json"
  length_toString_other :: "json \<Rightarrow> error + string"
  connect_fault :: "nat \<Rightarrow> error option"
  startSession_fault :: "error option"
  deleteMany_fault :: "model \<Rightarrow> error option"
  commitTransaction_fault :: "error option"
  insertMany_fault :: "model \<Rightarrow> json list \<Rightarrow> json list \<Rightarrow> (error \<times> nat) option"
  cast :: "model \<Rightarrow> json \<Rightarrow> json"
  countDocuments_fault :: "model \<Rightarrow> error option"

text \<open>
  \<^item> \<open>dirname\<close> and \<open>path_resolve\<close> are \<^verbatim>\<open>path.dirname(fileURLToPath(import.meta.url))\<close>
    and \<^verbatim>\<open>path.resolve\<close>; the paths they give are the keys of the file system.
  \<^item> \<open>readdir\<close>, \<open>stat_isFile\<close> (\<^verbatim>\<open>(await fs.stat(p)).isFile()\<close>) and \<open>readFile\<close> answer
    for the file system, which does not change during a run.
  \<^item> \<open>length_toString_other\<close> is the value of \<^verbatim>\<open>docs.length.toString()\<close> when \<^verbatim>\<open>docs\<close>
    is not an array (a string, an object with a \<^verbatim>\<open>length\<close> key, or a \<^verbatim>\<open>TypeError\<close>).
  \<^item> \<open>connect_fault n\<close> is the error of the \<open>n\<close>-th call of \<^verbatim>\<open>connect\<close>, if it fails.
  \<^item> \<open>insertMany_fault m stored docs\<close> is \<open>Some (e, k)\<close> when inserting \<open>docs\<close> into a
    collection holding \<open>stored\<close> throws \<open>e\<close> after the first \<open>k\<close> documents were written
    (\<open>k = 0\<close> for a validation error, which Mongoose raises before it writes).
  \<^item> \<open>cast m d\<close> is the document Mongoose stores for the record \<open>d\<close> (schema casting,
    defaults, the generated \<^verbatim>\<open>_id\<close>).
\<close>

subsection \<open>Strings and the console\<close>

text \<open>\<^verbatim>\<open>String.prototype.padEnd(targetLength, padString)\<close>.\<close>

definition padEnd :: "string \<Rightarrow> nat \<Rightarrow> string \<Rightarrow> string" where
  "padEnd s n fill =
     (if n \<le> length s \<or> fill = [] then s
      else s @ take (n - length s) (concat (replicate (n - length s) fill)))"

text \<open>\<^verbatim>\<open>Number.prototype.toString\<close> on a length or a count.\<close>

fun nat_toString :: "nat \<Rightarrow> string" where
  "nat_toString n =
     (if n < 10 then [''0123456789'' ! n]
      else nat_toString (n div 10) @ [''0123456789'' ! (n mod 10)])"

declare nat_toString.simps [simp del]

text \<open>\<^verbatim>\<open>String.prototype.split(",")\<close>.\<close>

fun split_comma :: "string \<Rightarrow> string list" where
  "split_comma [] = [[]]"
| "split_comma (c # cs) =
     (if c = CHR '','' then [] # split_comma cs
      else (case split_comma cs of [] \<Rightarrow> [[c]] | x # xs \<Rightarrow> (c # x) # xs))"

definition red :: string where
  "red = CHR 0x1B # ''[31m''"

definition magenta :: string where
  "magenta = CHR 0x1B # ''[35m''"

definition console_log :: "arg list \<Rightarrow> world \<Rightarrow> world" where
  "console_log args w = w\<lparr>console := console w @ [ConsoleLog args]\<rparr>"

definition console_error :: "arg list \<Rightarrow> world \<Rightarrow> world" where
  "console_error args w = w\<lparr>console := console w @ [ConsoleError args]\<rparr>"

text \<open>\<^verbatim>\<open>await f; g\<close>: a thrown error skips the rest.\<close>

definition await :: "(world \<Rightarrow> (error + 'a) \<times> world) \<Rightarrow> ('a \<Rightarrow> world \<Rightarrow> (error + 'b) \<times> world) \<Rightarrow>
    world \<Rightarrow> (error + 'b) \<times> world" where
  "await f g w = (case f w of (Inl e, w') \<Rightarrow> (Inl e, w') | (Inr a, w') \<Rightarrow> g a w')"

subsection \<open>The database driver\<close>

text \<open>
  Modelled from the spec: \<^verbatim>\<open>connect\<close> of \<^verbatim>\<open>src/db\<close> is not among the sources.  The
  spec gives it as an operation that takes a database name and establishes the
  connection, and lists the connection failure among the database errors: the call
  returns or throws.
\<close>

definition connect :: "env \<Rightarrow> string \<Rightarrow> world \<Rightarrow> (error + unit) \<times> world" where
  "connect env dbName w =
     (let w' = w\<lparr>connect_calls := Suc (connect_calls w), calls := calls w @ [Connect dbName]\<rparr>
      in case connect_fault env (connect_calls w) of
           Some e \<Rightarrow> (Inl e, w')
         | None \<Rightarrow> (Inr (), w'))"

text \<open>\<^verbatim>\<open>mongoose.startSession()\<close> and \<^verbatim>\<open>session.endSession()\<close>; the latter never throws.\<close>

definition startSession :: "env \<Rightarrow> world \<Rightarrow> (error + session) \<times> world" where
  "startSession env w =
     (case startSession_fault env of
        Some e \<Rightarrow> (Inl e, w)
      | None \<Rightarrow>
          (Inr (next_session w),
           w\<lparr>next_session := Suc (next_session w),
             open_sessions := next_session w # open_sessions w,
             calls := calls w @ [StartSession (next_session w)]\<rparr>))"

definition endSession :: "session \<Rightarrow> world \<Rightarrow> world" where
  "endSession s w =
     w\<lparr>open_sessions := remove1 s (open_sessions w), calls := calls w @ [EndSession s]\<rparr>"

text \<open>
  \<^verbatim>\<open>Model.deleteMany({}, options)\<close>.  Mongoose runs an operation inside a session's
  transaction only when the session is handed to it (\<^verbatim>\<open>{ session }\<close> in the options):
  then the deletion is enlisted and becomes visible at commit.  Without a session the
  operation is a write of its own, committed when the call returns.
\<close>

definition deleteMany :: "env \<Rightarrow> model \<Rightarrow> session option \<Rightarrow> world \<Rightarrow> (error + unit) \<times> world" where
  "deleteMany env m opt w =
     (let w' = w\<lparr>calls := calls w @ [DeleteMany m opt]\<rparr>
      in case deleteMany_fault env m of
           Some e \<Rightarrow> (Inl e, w')
         | None \<Rightarrow>
             (case opt of
                None \<Rightarrow> (Inr (), w'\<lparr>db := (db w')(m := [])\<rparr>)
              | Some s \<Rightarrow> (Inr (), w'\<lparr>pending := pending w' @ [m]\<rparr>)))"

text \<open>
  \<^verbatim>\<open>session.withTransaction(fn)\<close>: start a transaction, run the callback, commit.  A
  callback that throws aborts the transaction and the error is thrown on; a commit that
  fails is thrown on as it is, with no abort.  (The driver runs the callback again on an
  error labelled transient; such a label is put on the errors of operations that run in
  the transaction only.)
\<close>

definition withTransaction ::
    "env \<Rightarrow> session \<Rightarrow> (world \<Rightarrow> (error + unit) \<times> world) \<Rightarrow> world \<Rightarrow> (error + unit) \<times> world" where
  "withTransaction env s fn w =
     (case fn (w\<lparr>pending := [], calls := calls w @ [StartTransaction s]\<rparr>) of
        (Inl e, w') \<Rightarrow>
          (Inl e, w'\<lparr>pending := [], calls := calls w' @ [AbortTransaction s]\<rparr>)
      | (Inr u, w') \<Rightarrow>
          (case commitTransaction_fault env of
             Some e \<Rightarrow>
               (Inl e, w'\<lparr>pending := [], calls := calls w' @ [CommitTransaction s]\<rparr>)
           | None \<Rightarrow>
               (Inr (),
                w'\<lparr>db := fold (\<lambda>m d. d(m := [])) (pending w') (db w'),
                  pending := [],
                  calls := calls w' @ [CommitTransaction s]\<rparr>)))"

text \<open>
  \<^verbatim>\<open>Model.insertMany(docs)\<close>: a value that is not an array is inserted as one document.
  The insert is ordered: it stores the documents one after the other and stops at the
  first that fails.
\<close>

definition insertMany :: "env \<Rightarrow> model \<Rightarrow> json \<Rightarrow> world \<Rightarrow> (error + unit) \<times> world" where
  "insertMany env m docs w =
     (let ds = (case docs of JArr xs \<Rightarrow> xs | _ \<Rightarrow> [docs]);
          w' = w\<lparr>calls := calls w @ [InsertMany m ds]\<rparr>
      in case insertMany_fault env m (db w m) ds of
           Some (e, k) \<Rightarrow>
             (Inl e, w'\<lparr>db := (db w')(m := db w' m @ map (cast env m) (take k ds))\<rparr>)
         | None \<Rightarrow>
             (Inr (), w'\<lparr>db := (db w')(m := db w' m @ map (cast env m) ds)\<rparr>))"

definition countDocuments :: "env \<Rightarrow> model \<Rightarrow> world \<Rightarrow> (error + nat) \<times> world" where
  "countDocuments env m w =
     (let w' = w\<lparr>calls := calls w @ [CountDocuments m]\<rparr>
      in case countDocuments_fault env m of
           Some e \<Rightarrow> (Inl e, w')
         | None \<Rightarrow> (Inr (length (db w m)), w'))"

subsection \<open>\<^verbatim>\<open>listSampleData\<close>\<close>

definition table_header :: "string \<Rightarrow> arg" where
  "table_header title =
     Str (padEnd title 30 '' '' @ ''| Document Count |'' @ [CHR 0x0A] @
          padEnd ''|'' 30 ''-'' @ ''|----------------|'' @ [CHR 0x0A])"

text \<open>The line printed for one table row: a name and a count already turned into text.\<close>

definition table_row :: "string \<Rightarrow> string \<Rightarrow> console_call" where
  "table_row name n =
     ConsoleLog [Str (''| '' @ padEnd name 28 '' '' @ ''| '' @ padEnd n 15 '' '' @ ''|'')]"

text \<open>\<^verbatim>\<open>docs.length.toString()\<close>.\<close>

definition length_toString :: "env \<Rightarrow> json \<Rightarrow> error + string" where
  "length_toString env docs =
     (case docs of
        JArr xs \<Rightarrow> Inr (nat_toString (length xs))
      | _ \<Rightarrow> length_toString_other env docs)"

text \<open>The loop \<^verbatim>\<open>for (const file of files)\<close>.\<close>

fun list_files :: "env \<Rightarrow> string \<Rightarrow> string list \<Rightarrow> world \<Rightarrow> (error + unit) \<times> world" where
  "list_files env sampleDataPath [] w = (Inr (), w)"
| "list_files env sampleDataPath (file # files) w =
     (case stat_isFile env (path_resolve env sampleDataPath file) of
        Inl e \<Rightarrow> (Inl e, w)
      | Inr isFile \<Rightarrow>
          if isFile then
            (case readFile env (path_resolve env sampleDataPath file) of
               Inl e \<Rightarrow> (Inl e, w)
             | Inr data \<Rightarrow>
                 (case JSON_parse env data of
                    Inl e \<Rightarrow> (Inl e, w)
                  | Inr docs \<Rightarrow>
                      (case length_toString env docs of
                         Inl e \<Rightarrow> (Inl e, w)
                       | Inr n \<Rightarrow>
                           list_files env sampleDataPath files
                             (w\<lparr>console := console w @ [table_row file n]\<rparr>))))
          else list_files env sampleDataPath files w)"

definition listSampleData_try :: "env \<Rightarrow> world \<Rightarrow> (error + unit) \<times> world" where
  "listSampleData_try env w =
     (let sampleDataPath = path_resolve env (dirname env) ''../../sample_data''
      in case readdir env sampleDataPath of
           Inl e \<Rightarrow> (Inl e, w)
         | Inr files \<Rightarrow>
             await (list_files env sampleDataPath files)
               (\<lambda>_ w'. (Inr (), console_log [] w'))
               (console_log [table_header ''| File Name'']
                 (console_log [Str (''Sample Data Files:'' @ [CHR 0x0A])] w)))"

definition listSampleData :: "env \<Rightarrow> world \<Rightarrow> world" where
  "listSampleData env w =
     (case listSampleData_try env w of
        (Inr _, w') \<Rightarrow> w'
      | (Inl err, w') \<Rightarrow>
          console_error [Str red, Str (''Error listing sample data: '' @ error_toString err)] w')"

subsection \<open>\<^verbatim>\<open>resetDatabase\<close>\<close>

text \<open>
  The callback handed to \<^verbatim>\<open>withTransaction\<close>: ten calls of \<^verbatim>\<open>deleteMany({})\<close>, none
  of which is given the session.
\<close>

definition reset_callback :: "env \<Rightarrow> world \<Rightarrow> (error + unit) \<times> world" where
  "reset_callback env =
     await (deleteMany env Community None) (\<lambda>_.
     await (deleteMany env User None) (\<lambda>_.
     await (deleteMany env Organization None) (\<lambda>_.
     await (deleteMany env ActionItemCategory None) (\<lambda>_.
     await (deleteMany env AgendaCategoryModel None) (\<lambda>_.
     await (deleteMany env Event None) (\<lambda>_.
     await (deleteMany env Venue None) (\<lambda>_.
     await (deleteMany env RecurrenceRule None) (\<lambda>_.
     await (deleteMany env Post None) (\<lambda>_.
     deleteMany env AppUserProfile None)))))))))"

definition resetDatabase :: "env \<Rightarrow> world \<Rightarrow> (error + unit) \<times> world" where
  "resetDatabase env w =
     (case startSession env w of
        (Inl e, w1) \<Rightarrow> (Inl e, w1)
      | (Inr session, w1) \<Rightarrow>
          (case withTransaction env session (reset_callback env) w1 of
             (Inr _, w2) \<Rightarrow>
               (Inr (), endSession session (console_log [Str ''Database reset completed.''] w2))
           | (Inl e, w2) \<Rightarrow>
               (Inl e, endSession session
                  (console_error [Str ''Database reset failed:'', Err e] w2))))"

subsection \<open>\<^verbatim>\<open>checkCountAfterImport\<close>\<close>

definition count_table :: "(string \<times> model) list" where
  "count_table =
     [(''users'', User),
      (''organizations'', Organization),
      (''actionItemCategories'', ActionItemCategory),
      (''agendaCategories'', AgendaCategoryModel),
      (''events'', Event),
      (''recurrenceRules'', RecurrenceRule),
      (''posts'', Post),
      (''venue'', Venue),
      (''appUserProfiles'', AppUserProfile)]"

text \<open>The loop \<^verbatim>\<open>for (const { name, model } of collections)\<close>.\<close>

fun print_counts :: "env \<Rightarrow> (string \<times> model) list \<Rightarrow> world \<Rightarrow> (error + unit) \<times> world" where
  "print_counts env [] w = (Inr (), w)"
| "print_counts env ((name, m) # rest) w =
     (case countDocuments env m w of
        (Inl e, w') \<Rightarrow> (Inl e, w')
      | (Inr count, w') \<Rightarrow>
          print_counts env rest
            (w'\<lparr>console := console w' @ [table_row name (nat_toString count)]\<rparr>))"

definition checkCountAfterImport_try :: "env \<Rightarrow> world \<Rightarrow> (error + unit) \<times> world" where
  "checkCountAfterImport_try env =
     await (connect env ''talawa-api'') (\<lambda>_ w.
       print_counts env count_table
         (console_log [table_header ''| Collection Name'']
           (console_log [Str (CHR 0x0A # ''Document Counts After Import:'' @ [CHR 0x0A])] w)))"

definition checkCountAfterImport :: "env \<Rightarrow> world \<Rightarrow> world" where
  "checkCountAfterImport env w =
     (case checkCountAfterImport_try env w of
        (Inr _, w') \<Rightarrow> w'
      | (Inl err, w') \<Rightarrow>
          console_error [Str red, Str (''Error checking document count: '' @ error_toString err)] w')"

subsection \<open>\<^verbatim>\<open>insertCollections\<close>\<close>

text \<open>The \<^verbatim>\<open>switch (collection)\<close>.\<close>

definition switch_collection :: "env \<Rightarrow> string \<Rightarrow> json \<Rightarrow> world \<Rightarrow> (error + unit) \<times> world" where
  "switch_collection env collection docs w =
     (if collection = ''users'' then insertMany env User docs w
      else if collection = ''organizations'' then insertMany env Organization docs w
      else if collection = ''actionItemCategories'' then insertMany env ActionItemCategory docs w
      else if collection = ''agendaCategories'' then insertMany env AgendaCategoryModel docs w
      else if collection = ''events'' then insertMany env Event docs w
      else if collection = ''venue'' then insertMany env Venue docs w
      else if collection = ''recurrenceRules'' then insertMany env RecurrenceRule docs w
      else if collection = ''posts'' then insertMany env Post docs w
      else if collection = ''appUserProfiles'' then insertMany env AppUserProfile docs w
      else (Inr (), console_log [Str red, Str (''Invalid collection name: '' @ collection)] w))"

definition fixture_path :: "env \<Rightarrow> string \<Rightarrow> string" where
  "fixture_path env collection =
     path_resolve env (dirname env) (''../../sample_data/'' @ collection @ ''.json'')"

text \<open>The loop \<^verbatim>\<open>for (const collection of collections)\<close>.\<close>

fun insert_each :: "env \<Rightarrow> string list \<Rightarrow> world \<Rightarrow> (error + unit) \<times> world" where
  "insert_each env [] w = (Inr (), w)"
| "insert_each env (collection # rest) w =
     (case readFile env (fixture_path env collection) of
        Inl e \<Rightarrow> (Inl e, w)
      | Inr data \<Rightarrow>
          (case JSON_parse env data of
             Inl e \<Rightarrow> (Inl e, w)
           | Inr docs \<Rightarrow>
               (case switch_collection env collection docs w of
                  (Inl e, w') \<Rightarrow> (Inl e, w')
                | (Inr _, w') \<Rightarrow>
                    insert_each env rest
                      (console_log [Str magenta, Str (''Added '' @ collection @ '' collection'')] w'))))"

text \<open>The \<^verbatim>\<open>try\<close> block, then the \<^verbatim>\<open>catch\<close> and the \<^verbatim>\<open>finally\<close> around it.\<close>

definition insertCollections_try :: "env \<Rightarrow> string list \<Rightarrow> world \<Rightarrow> (error + unit) \<times> world" where
  "insertCollections_try env collections =
     await (connect env ''talawa-api'') (\<lambda>_.
     await (resetDatabase env) (\<lambda>_.
     await (insert_each env collections) (\<lambda>_ w.
       (Inr (),
        console_log [Str (CHR 0x0A # ''Collections added successfully'')]
          (checkCountAfterImport env w)))))"

definition insertCollections :: "env \<Rightarrow> string list \<Rightarrow> world \<Rightarrow> world" where
  "insertCollections env collections w =
     (case insertCollections_try env collections w of
        (Inr _, w') \<Rightarrow> w'\<lparr>exit_code := Some 0\<rparr>
      | (Inl err, w') \<Rightarrow>
          (console_error [Str red, Str (''Error adding collections: '' @ error_toString err)] w')
            \<lparr>exit_code := Some 0\<rparr>)"

subsection \<open>The entry point\<close>

text \<open>The default list \<^verbatim>\<open>collections\<close>.\<close>

definition collections :: "string list" where
  "collections =
     [''users'', ''organizations'', ''posts'', ''events'', ''venue'', ''recurrenceRules'',
      ''appUserProfiles'', ''actionItemCategories'', ''agendaCategories'']"

text \<open>
  The list the run loads: \<^verbatim>\<open>argvItems.split(",")\<close> when the option \<^verbatim>\<open>--items\<close> is given
  and not empty (an empty string is falsy), the default list otherwise.
\<close>

definition selected :: "string option \<Rightarrow> string list" where
  "selected argvItems =
     (case argvItems of
        None \<Rightarrow> collections
      | Some items \<Rightarrow> if items = [] then collections else split_comma items)"

definition main :: "env \<Rightarrow> string option \<Rightarrow> world \<Rightarrow> world" where
  "main env argvItems w = insertCollections env (selected argvItems) (listSampleData env w)"

text \<open>A process starts with an empty console, no session and no exit status.\<close>

definition start :: "(model \<Rightarrow> json list) \<Rightarrow> world" where
  "start d =
     \<lparr>db = d, pending = [], open_sessions = [], next_session = 0, connect_calls = 0,
      calls = [], console = [], exit_code = None\<rparr>"

section \<open>Notions used in the statements\<close>

subsection \<open>The reset\<close>

text \<open>The models the callback of \<^verbatim>\<open>resetDatabase\<close> deletes from, in the order of its calls.\<close>

definition reset_models :: "model list" where
  "reset_models =
     [Community, User, Organization, ActionItemCategory, AgendaCategoryModel, Event, Venue,
      RecurrenceRule, Post, AppUserProfile]"

text \<open>The callback as a loop over that list (shown equal to \<open>reset_callback\<close> below).\<close>

fun delete_all :: "env \<Rightarrow> model list \<Rightarrow> world \<Rightarrow> (error + unit) \<times> world" where
  "delete_all env [] = (\<lambda>w. (Inr (), w))"
| "delete_all env (m # ms) = await (deleteMany env m None) (\<lambda>_. delete_all env ms)"

text \<open>The error of the first deletion that fails, if one does.\<close>

fun first_fault :: "env \<Rightarrow> model list \<Rightarrow> error option" where
  "first_fault env [] = None"
| "first_fault env (m # ms) =
     (case deleteMany_fault env m of Some e \<Rightarrow> Some e | None \<Rightarrow> first_fault env ms)"

text \<open>The deletions that succeed before the first failure.\<close>

abbreviation deletes_ok :: "env \<Rightarrow> model list" where
  "deletes_ok env \<equiv> takeWhile (\<lambda>m. deleteMany_fault env m = None) reset_models"

text \<open>
  The first failure a reset meets: of \<^verbatim>\<open>startSession\<close>, of a deletion, or of the commit.
\<close>

definition reset_fault :: "env \<Rightarrow> error option" where
  "reset_fault env =
     (case startSession_fault env of
        Some e \<Rightarrow> Some e
      | None \<Rightarrow>
          (case first_fault env reset_models of
             Some e \<Rightarrow> Some e
           | None \<Rightarrow> commitTransaction_fault env))"

subsection \<open>The load\<close>

text \<open>
  The nine names the \<^verbatim>\<open>switch\<close> knows, each with the model it inserts into
  (shown to be what \<open>switch_collection\<close> does below).
\<close>

definition model_of :: "string \<Rightarrow> model option" where
  "model_of collection =
     (if collection = ''users'' then Some User
      else if collection = ''organizations'' then Some Organization
      else if collection = ''actionItemCategories'' then Some ActionItemCategory
      else if collection = ''agendaCategories'' then Some AgendaCategoryModel
      else if collection = ''events'' then Some Event
      else if collection = ''venue'' then Some Venue
      else if collection = ''recurrenceRules'' then Some RecurrenceRule
      else if collection = ''posts'' then Some Post
      else if collection = ''appUserProfiles'' then Some AppUserProfile
      else None)"

text \<open>The records \<^verbatim>\<open>insertMany\<close> is asked to store for a parsed fixture.\<close>

definition records_of :: "json \<Rightarrow> json list" where
  "records_of docs = (case docs of JArr xs \<Rightarrow> xs | _ \<Rightarrow> [docs])"

text \<open>The fixture of a collection name: its file, read and parsed.\<close>

definition fixture :: "env \<Rightarrow> string \<Rightarrow> error + json" where
  "fixture env collection =
     (case readFile env (fixture_path env collection) of
        Inl e \<Rightarrow> Inl e
      | Inr data \<Rightarrow> JSON_parse env data)"

text \<open>The number of documents a successful iteration for \<open>c\<close> adds to the collection of \<open>m\<close>.\<close>

definition loaded :: "env \<Rightarrow> model \<Rightarrow> string \<Rightarrow> nat" where
  "loaded env m c =
     (if model_of c = Some m then
        (case fixture env c of Inr docs \<Rightarrow> length (records_of docs) | Inl e \<Rightarrow> 0)
      else 0)"

text \<open>The models of the \<^verbatim>\<open>insertMany\<close> calls of a log, in order.\<close>

fun inserts :: "call list \<Rightarrow> model list" where
  "inserts [] = []"
| "inserts (InsertMany m ds # cs) = m # inserts cs"
| "inserts (c # cs) = inserts cs"

subsection \<open>The two tables\<close>

text \<open>The rows \<^verbatim>\<open>checkCountAfterImport\<close> prints for a database.\<close>

definition count_rows :: "(model \<Rightarrow> json list) \<Rightarrow> console_call list" where
  "count_rows d = map (\<lambda>(name, m). table_row name (nat_toString (length (d m)))) count_table"

text \<open>
  An entry of the directory that does not stop the listing: \<^verbatim>\<open>stat\<close> answers, and a
  regular file is read, parsed and has a printable \<^verbatim>\<open>length\<close>.
\<close>

definition listable :: "env \<Rightarrow> string \<Rightarrow> string \<Rightarrow> bool" where
  "listable env sampleDataPath file =
     (case stat_isFile env (path_resolve env sampleDataPath file) of
        Inl e \<Rightarrow> False
      | Inr isFile \<Rightarrow>
          if isFile then
            (case readFile env (path_resolve env sampleDataPath file) of
               Inl e \<Rightarrow> False
             | Inr data \<Rightarrow>
                 (case JSON_parse env data of
                    Inl e \<Rightarrow> False
                  | Inr docs \<Rightarrow>
                      (case length_toString env docs of Inl e \<Rightarrow> False | Inr n \<Rightarrow> True)))
          else True)"

text \<open>
  One turn of the loop of \<^verbatim>\<open>listSampleData\<close>: the error it throws, or the row it prints
  (none for an entry that is not a regular file).
\<close>

definition entry :: "env \<Rightarrow> string \<Rightarrow> string \<Rightarrow> error + console_call option" where
  "entry env sampleDataPath file =
     (case stat_isFile env (path_resolve env sampleDataPath file) of
        Inl e \<Rightarrow> Inl e
      | Inr isFile \<Rightarrow>
          if isFile then
            (case readFile env (path_resolve env sampleDataPath file) of
               Inl e \<Rightarrow> Inl e
             | Inr data \<Rightarrow>
                 (case JSON_parse env data of
                    Inl e \<Rightarrow> Inl e
                  | Inr docs \<Rightarrow>
                      (case length_toString env docs of
                         Inl e \<Rightarrow> Inl e
                       | Inr n \<Rightarrow> Inr (Some (table_row file n)))))
          else Inr None)"

text \<open>
  The rows of the entries that stand before the first entry that stops the listing, and
  the line that ends the listing: the empty line after the last entry, or the message
  of the \<^verbatim>\<open>catch\<close> block with the error of that first entry.
\<close>

definition listed_rows :: "env \<Rightarrow> string \<Rightarrow> string list \<Rightarrow> console_call list" where
  "listed_rows env sampleDataPath files =
     List.map_filter (\<lambda>f. case entry env sampleDataPath f of Inl e \<Rightarrow> None | Inr row \<Rightarrow> row)
       (takeWhile (listable env sampleDataPath) files)"

definition listing_end :: "env \<Rightarrow> string \<Rightarrow> string list \<Rightarrow> console_call" where
  "listing_end env sampleDataPath files =
     (case dropWhile (listable env sampleDataPath) files of
        [] \<Rightarrow> ConsoleLog []
      | f # rest \<Rightarrow>
          (case entry env sampleDataPath f of
             Inl e \<Rightarrow> ConsoleError [Str red, Str (''Error listing sample data: '' @ error_toString e)]
           | Inr row \<Rightarrow> ConsoleLog []))"

subsection \<open>Runs of the process\<close>

text \<open>The database a run of the script leaves, started on the database \<open>d\<close>.\<close>

definition run :: "env \<Rightarrow> string option \<Rightarrow> (model \<Rightarrow> json list) \<Rightarrow> model \<Rightarrow> json list" where
  "run env argvItems d = db (main env argvItems (start d))"

text \<open>The \<^verbatim>\<open>try\<close> block of \<^verbatim>\<open>insertCollections\<close> ends without an error in that run.\<close>

definition load_ok :: "env \<Rightarrow> string option \<Rightarrow> (model \<Rightarrow> json list) \<Rightarrow> bool" where
  "load_ok env argvItems d =
     (fst (insertCollections_try env (selected argvItems) (listSampleData env (start d))) = Inr ())"

subsection \<open>An outside world and a database to run the script on\<close>

text \<open>
  A directory with two fixtures (two users, one event), a subdirectory and nothing that
  fails; every collection holds one document of an earlier run.
\<close>

definition sample_env :: env where
  "sample_env =
     \<lparr>dirname = ''d'',
      path_resolve = (\<lambda>dir f. dir @ ''/'' @ f),
      readdir = (\<lambda>p. if p = ''d/../../sample_data''
                       then Inr [''events.json'', ''images'', ''users.json'']
                       else Inl (Error ''Error'' ''ENOENT'')),
      stat_isFile = (\<lambda>p. Inr (p \<noteq> ''d/../../sample_data/images'')),
      readFile = (\<lambda>p. if p = ''d/../../sample_data/users.json'' then Inr ''[{},{}]''
                        else if p = ''d/../../sample_data/events.json'' then Inr ''[{}]''
                        else Inl (Error ''Error'' ''ENOENT'')),
      JSON_parse = (\<lambda>s. if s = ''[{},{}]'' then Inr (JArr [JObj [], JObj []])
                          else if s = ''[{}]'' then Inr (JArr [JObj []])
                          else Inl (Error ''SyntaxError'' ''Unexpected token'')),
      length_toString_other = (\<lambda>v. Inl (Error ''TypeError'' ''Cannot read properties'')),
      connect_fault = (\<lambda>n. None),
      startSession_fault = None,
      deleteMany_fault = (\<lambda>m. None),
      commitTransaction_fault = None,
      insertMany_fault = (\<lambda>m stored docs. None),
      cast = (\<lambda>m d. d),
      countDocuments_fault = (\<lambda>m. None)\<rparr>"

definition stale :: "model \<Rightarrow> json list" where
  "stale = (\<lambda>m. [JStr ''old''])"

text \<open>The same outside world, where the deletion of the organizations fails.\<close>

definition broken_env :: env where
  "broken_env =
     sample_env\<lparr>deleteMany_fault :=
       (\<lambda>m. if m = Organization then Some (Error ''MongoNetworkError'' ''connection closed'')
             else None)\<rparr>"

text \<open>The same outside world, where the last deletion of the reset fails.\<close>

definition late_env :: env where
  "late_env =
     sample_env\<lparr>deleteMany_fault :=
       (\<lambda>m. if m = AppUserProfile then Some (Error ''MongoNetworkError'' ''connection closed'')
             else None)\<rparr>"

text \<open>
  The same outside world with another directory: a file of notes, which is not JSON,
  stands before the fixture of the users.
\<close>

definition stray_env :: env where
  "stray_env =
     sample_env\<lparr>
       readdir := (\<lambda>p. Inr [''notes.txt'', ''users.json'']),
       readFile := (\<lambda>p. if p = ''d/../../sample_data/notes.txt'' then Inr ''to do''
                         else readFile sample_env p)\<rparr>"

section \<open>Lemmas\<close>

subsection \<open>The reset\<close>

lemma await_unit: "await f (\<lambda>_ w. (Inr (), w)) = f"
  by (auto simp: await_def fun_eq_iff split: prod.splits sum.splits)

lemma reset_callback_delete_all: "reset_callback env = delete_all env reset_models"
proof -
  have "delete_all env [AppUserProfile] = deleteMany env AppUserProfile None"
    by (simp add: await_unit)
  then show ?thesis
    by (simp add: reset_callback_def reset_models_def)
qed

lemma model_in_reset_models: "m \<in> set reset_models"
  by (cases m) (simp_all add: reset_models_def)

lemma deleteMany_None:
  "deleteMany env m None w =
     (case deleteMany_fault env m of
        Some e \<Rightarrow> (Inl e, w\<lparr>calls := calls w @ [DeleteMany m None]\<rparr>)
      | None \<Rightarrow> (Inr (), w\<lparr>calls := calls w @ [DeleteMany m None], db := (db w)(m := [])\<rparr>))"
  by (simp add: deleteMany_def Let_def split: option.splits)

lemma delete_all_fst:
  "fst (delete_all env ms w) = (case first_fault env ms of Some e \<Rightarrow> Inl e | None \<Rightarrow> Inr ())"
  by (induction ms arbitrary: w) (simp_all add: await_def deleteMany_None split: option.splits)

lemma delete_all_db:
  "db (snd (delete_all env ms w)) m =
     (if m \<in> set (takeWhile (\<lambda>m. deleteMany_fault env m = None) ms) then [] else db w m)"
  by (induction ms arbitrary: w) (simp_all add: await_def deleteMany_None split: option.splits)

lemma delete_all_calls:
  "calls (snd (delete_all env ms w)) =
     calls w @ map (\<lambda>m. DeleteMany m None)
       (take (Suc (length (takeWhile (\<lambda>m. deleteMany_fault env m = None) ms))) ms)"
  by (induction ms arbitrary: w) (simp_all add: await_def deleteMany_None split: option.splits)

lemma delete_all_frame:
  "pending (snd (delete_all env ms w)) = pending w \<and>
   open_sessions (snd (delete_all env ms w)) = open_sessions w \<and>
   next_session (snd (delete_all env ms w)) = next_session w \<and>
   connect_calls (snd (delete_all env ms w)) = connect_calls w \<and>
   console (snd (delete_all env ms w)) = console w \<and>
   exit_code (snd (delete_all env ms w)) = exit_code w"
  by (induction ms arbitrary: w) (simp_all add: await_def deleteMany_None split: option.splits)

lemma first_fault_None: "first_fault env ms = None \<longleftrightarrow> (\<forall>m \<in> set ms. deleteMany_fault env m = None)"
  by (induction ms) (auto split: option.splits)

lemma takeWhile_all: "first_fault env ms = None \<Longrightarrow> takeWhile (\<lambda>m. deleteMany_fault env m = None) ms = ms"
  by (simp add: first_fault_None)

lemma await_beta:
  "await f g w = (case fst (f w) of Inl e \<Rightarrow> (Inl e, snd (f w)) | Inr a \<Rightarrow> g a (snd (f w)))"
  by (simp add: await_def split: prod.splits sum.splits)

lemma resetDatabase_fst:
  "fst (resetDatabase env w) = (case reset_fault env of Some e \<Rightarrow> Inl e | None \<Rightarrow> Inr ())"
  by (simp add: resetDatabase_def startSession_def withTransaction_def reset_callback_delete_all
      reset_fault_def case_prod_beta delete_all_fst split: option.splits sum.splits)

lemma resetDatabase_db:
  "db (snd (resetDatabase env w)) m =
     (if startSession_fault env = None \<and> m \<in> set (deletes_ok env) then [] else db w m)"
  by (simp add: resetDatabase_def startSession_def withTransaction_def reset_callback_delete_all
      endSession_def console_log_def console_error_def
      case_prod_beta delete_all_fst delete_all_db delete_all_frame split: option.splits sum.splits)

lemma resetDatabase_frame:
  "open_sessions (snd (resetDatabase env w)) = open_sessions w \<and>
   connect_calls (snd (resetDatabase env w)) = connect_calls w \<and>
   exit_code (snd (resetDatabase env w)) = exit_code w"
  by (simp add: resetDatabase_def startSession_def withTransaction_def reset_callback_delete_all
      endSession_def console_log_def console_error_def
      case_prod_beta delete_all_fst delete_all_db delete_all_frame split: option.splits sum.splits)

lemma resetDatabase_calls:
  "startSession_fault env = None \<Longrightarrow>
   calls (snd (resetDatabase env w)) =
     calls w @ [StartSession (next_session w), StartTransaction (next_session w)] @
     map (\<lambda>m. DeleteMany m None) (take (Suc (length (deletes_ok env))) reset_models) @
     [if first_fault env reset_models = None then CommitTransaction (next_session w)
      else AbortTransaction (next_session w),
      EndSession (next_session w)]"
  by (simp add: resetDatabase_def startSession_def withTransaction_def reset_callback_delete_all
      endSession_def console_log_def console_error_def reset_fault_def
      case_prod_beta delete_all_fst delete_all_calls delete_all_frame split: option.splits sum.splits)

lemma resetDatabase_console:
  "console (snd (resetDatabase env w)) =
     (case startSession_fault env of
        Some e \<Rightarrow> console w
      | None \<Rightarrow>
         (case reset_fault env of
            None \<Rightarrow> console w @ [ConsoleLog [Str ''Database reset completed.'']]
          | Some e \<Rightarrow> console w @ [ConsoleError [Str ''Database reset failed:'', Err e]]))"
  by (simp add: resetDatabase_def startSession_def withTransaction_def reset_callback_delete_all
      endSession_def console_log_def console_error_def reset_fault_def
      case_prod_beta delete_all_fst delete_all_calls delete_all_frame split: option.splits sum.splits)

lemma resetDatabase_success_db:
  assumes "fst (resetDatabase env w) = Inr ()"
  shows "db (snd (resetDatabase env w)) m = []"
proof -
  from assms have "reset_fault env = None"
    by (simp add: resetDatabase_fst split: option.splits)
  then have "startSession_fault env = None" and "first_fault env reset_models = None"
    by (simp_all add: reset_fault_def split: option.splits)
  then show ?thesis
    by (simp add: resetDatabase_db takeWhile_all model_in_reset_models)
qed

subsection \<open>The loop of the load\<close>

lemma switch_collection_model_of:
  "switch_collection env c docs w =
     (case model_of c of
        Some m \<Rightarrow> insertMany env m docs w
      | None \<Rightarrow> (Inr (), console_log [Str red, Str (''Invalid collection name: '' @ c)] w))"
  by (simp add: switch_collection_def model_of_def)

lemma model_of_inj: "model_of c = Some m \<Longrightarrow> model_of c' = Some m \<Longrightarrow> c = c'"
  by (simp add: model_of_def split: if_splits)

lemma model_of_not_Community: "model_of c \<noteq> Some Community"
  by (simp add: model_of_def)

lemma insertMany_fst:
  "fst (insertMany env m docs w) =
     (case insertMany_fault env m (db w m) (records_of docs) of
        Some (e, k) \<Rightarrow> Inl e
      | None \<Rightarrow> Inr ())"
  by (simp add: insertMany_def records_of_def Let_def split: option.splits prod.splits)

lemma insertMany_db:
  "db (snd (insertMany env m docs w)) m' =
     (if m' = m then
        db w m @ map (cast env m)
          (case insertMany_fault env m (db w m) (records_of docs) of
             Some (e, k) \<Rightarrow> take k (records_of docs)
           | None \<Rightarrow> records_of docs)
      else db w m')"
  by (simp add: insertMany_def records_of_def Let_def split: option.splits prod.splits)

lemma insertMany_frame:
  "pending (snd (insertMany env m docs w)) = pending w \<and>
   open_sessions (snd (insertMany env m docs w)) = open_sessions w \<and>
   next_session (snd (insertMany env m docs w)) = next_session w \<and>
   connect_calls (snd (insertMany env m docs w)) = connect_calls w \<and>
   console (snd (insertMany env m docs w)) = console w \<and>
   exit_code (snd (insertMany env m docs w)) = exit_code w \<and>
   calls (snd (insertMany env m docs w)) = calls w @ [InsertMany m (records_of docs)]"
  by (simp add: insertMany_def records_of_def Let_def split: option.splits prod.splits)

lemma insert_each_Cons:
  "insert_each env (c # rest) w =
     (case fixture env c of
        Inl e \<Rightarrow> (Inl e, w)
      | Inr docs \<Rightarrow>
          (case fst (switch_collection env c docs w) of
             Inl e \<Rightarrow> (Inl e, snd (switch_collection env c docs w))
           | Inr _ \<Rightarrow>
               insert_each env rest
                 (console_log [Str magenta, Str (''Added '' @ c @ '' collection'')]
                    (snd (switch_collection env c docs w)))))"
  by (simp add: fixture_def split: sum.splits prod.splits)

declare insert_each.simps(2) [simp del]

lemma switch_collection_success_length:
  "fst (switch_collection env c docs w) = Inr () \<Longrightarrow>
   length (db (snd (switch_collection env c docs w)) m) =
     length (db w m) + (if model_of c = Some m then length (records_of docs) else 0)"
  by (auto simp: switch_collection_model_of insertMany_fst insertMany_db console_log_def
      split: option.splits prod.splits)

lemma insert_each_success_length:
  "fst (insert_each env names w) = Inr () \<Longrightarrow>
   length (db (snd (insert_each env names w)) m) =
     length (db w m) + sum_list (map (loaded env m) names)"
proof (induction names arbitrary: w)
  case Nil
  then show ?case by simp
next
  case (Cons c rest)
  from Cons.prems obtain docs where f: "fixture env c = Inr docs"
    by (auto simp: insert_each_Cons split: sum.splits)
  from Cons.prems f have s: "fst (switch_collection env c docs w) = Inr ()"
    by (auto simp: insert_each_Cons split: sum.splits)
  let ?w = "console_log [Str magenta, Str (''Added '' @ c @ '' collection'')]
                    (snd (switch_collection env c docs w))"
  from f s have e: "insert_each env (c # rest) w = insert_each env rest ?w"
    by (simp add: insert_each_Cons)
  with Cons.prems have "fst (insert_each env rest ?w) = Inr ()" by simp
  from Cons.IH[OF this] have
    "length (db (snd (insert_each env rest ?w)) m) = length (db ?w m) + sum_list (map (loaded env m) rest)" .
  moreover have "length (db ?w m) = length (db w m) + loaded env m c"
    using switch_collection_success_length[OF s, of m] f
    by (simp add: console_log_def loaded_def)
  ultimately show ?case using e by simp
qed

lemma insert_each_frame:
  "open_sessions (snd (insert_each env names w)) = open_sessions w \<and>
   connect_calls (snd (insert_each env names w)) = connect_calls w \<and>
   exit_code (snd (insert_each env names w)) = exit_code w \<and>
   db (snd (insert_each env names w)) Community = db w Community"
proof (induction names arbitrary: w)
  case Nil
  then show ?case by simp
next
  case (Cons c rest)
  show ?case
    by (simp add: insert_each_Cons Cons.IH switch_collection_model_of insertMany_frame
        insertMany_db console_log_def model_of_not_Community
        split: sum.splits option.splits)
qed

subsection \<open>The verification\<close>

lemma connect_fst:
  "fst (connect env name w) = (case connect_fault env (connect_calls w) of Some e \<Rightarrow> Inl e | None \<Rightarrow> Inr ())"
  by (simp add: connect_def Let_def split: option.splits)

lemma connect_snd:
  "snd (connect env name w) = w\<lparr>connect_calls := Suc (connect_calls w), calls := calls w @ [Connect name]\<rparr>"
  by (simp add: connect_def Let_def split: option.splits)

lemma countDocuments_fst:
  "fst (countDocuments env m w) =
     (case countDocuments_fault env m of Some e \<Rightarrow> Inl e | None \<Rightarrow> Inr (length (db w m)))"
  by (simp add: countDocuments_def Let_def split: option.splits)

lemma countDocuments_snd:
  "snd (countDocuments env m w) = w\<lparr>calls := calls w @ [CountDocuments m]\<rparr>"
  by (simp add: countDocuments_def Let_def split: option.splits)

lemma print_counts_Cons:
  "print_counts env ((name, m) # rest) w =
     (case countDocuments_fault env m of
        Some e \<Rightarrow> (Inl e, w\<lparr>calls := calls w @ [CountDocuments m]\<rparr>)
      | None \<Rightarrow>
          print_counts env rest
            (w\<lparr>calls := calls w @ [CountDocuments m],
               console := console w @ [table_row name (nat_toString (length (db w m)))]\<rparr>))"
  by (simp add: countDocuments_def Let_def split: option.splits)

lemma print_counts_frame:
  "db (snd (print_counts env table w)) = db w \<and>
   pending (snd (print_counts env table w)) = pending w \<and>
   open_sessions (snd (print_counts env table w)) = open_sessions w \<and>
   next_session (snd (print_counts env table w)) = next_session w \<and>
   connect_calls (snd (print_counts env table w)) = connect_calls w \<and>
   exit_code (snd (print_counts env table w)) = exit_code w"
proof (induction table arbitrary: w)
  case Nil
  then show ?case by simp
next
  case (Cons p table)
  obtain name m where p: "p = (name, m)" by (cases p)
  show ?case
    unfolding p by (simp add: print_counts_Cons Cons.IH del: print_counts.simps split: option.splits)
qed

lemma print_counts_ok:
  "\<forall>p \<in> set table. countDocuments_fault env (snd p) = None \<Longrightarrow>
   fst (print_counts env table w) = Inr () \<and>
   console (snd (print_counts env table w)) =
     console w @ map (\<lambda>(name, m). table_row name (nat_toString (length (db w m)))) table"
proof (induction table arbitrary: w)
  case Nil
  then show ?case by simp
next
  case (Cons p table)
  obtain name m where p: "p = (name, m)" by (cases p)
  from Cons.prems have "\<forall>p \<in> set table. countDocuments_fault env (snd p) = None"
    and "countDocuments_fault env m = None" by (simp_all add: p)
  then show ?case
    unfolding p by (simp add: print_counts_Cons Cons.IH del: print_counts.simps)
qed

lemma checkCountAfterImport_frame:
  "db (checkCountAfterImport env w) = db w \<and>
   pending (checkCountAfterImport env w) = pending w \<and>
   open_sessions (checkCountAfterImport env w) = open_sessions w \<and>
   next_session (checkCountAfterImport env w) = next_session w \<and>
   exit_code (checkCountAfterImport env w) = exit_code w"
  by (simp add: checkCountAfterImport_def checkCountAfterImport_try_def await_beta
      connect_fst connect_snd console_log_def console_error_def print_counts_frame
      case_prod_beta split: sum.splits option.splits)

lemma checkCountAfterImport_console:
  assumes "connect_fault env (connect_calls w) = None"
    and "\<forall>m. countDocuments_fault env m = None"
  shows "console (checkCountAfterImport env w) =
     console w @
     [ConsoleLog [Str (CHR 0x0A # ''Document Counts After Import:'' @ [CHR 0x0A])],
      ConsoleLog [table_header ''| Collection Name'']] @
     count_rows (db w)"
proof -
  from assms(2) have "\<forall>p \<in> set count_table. countDocuments_fault env (snd p) = None"
    by simp
  from print_counts_ok[OF this] assms(1) show ?thesis
    by (simp add: checkCountAfterImport_def checkCountAfterImport_try_def await_beta
      connect_fst connect_snd console_log_def count_rows_def case_prod_beta)
qed

subsection \<open>The \<^verbatim>\<open>try\<close> block of \<^verbatim>\<open>insertCollections\<close>\<close>

lemma insertCollections_try_success:
  assumes "fst (insertCollections_try env names w) = Inr ()"
  shows "connect_fault env (connect_calls w) = None"
    and "reset_fault env = None"
    and "fst (insert_each env names (snd (resetDatabase env (snd (connect env ''talawa-api'' w))))) = Inr ()"
    and "snd (insertCollections_try env names w) =
           console_log [Str (CHR 0x0A # ''Collections added successfully'')]
             (checkCountAfterImport env
               (snd (insert_each env names (snd (resetDatabase env (snd (connect env ''talawa-api'' w)))))))"
  using assms
  by (simp_all add: insertCollections_try_def await_beta connect_fst resetDatabase_fst
      split: sum.splits option.splits)

lemma insertCollections_try_success_length:
  assumes "fst (insertCollections_try env names w) = Inr ()"
  shows "length (db (snd (insertCollections_try env names w)) m) = sum_list (map (loaded env m) names)"
proof -
  let ?w1 = "snd (resetDatabase env (snd (connect env ''talawa-api'' w)))"
  note s = insertCollections_try_success[OF assms]
  have "fst (resetDatabase env (snd (connect env ''talawa-api'' w))) = Inr ()"
    using s(2) by (simp add: resetDatabase_fst)
  then have "db ?w1 m = []" by (rule resetDatabase_success_db)
  with insert_each_success_length[OF s(3), of m] show ?thesis
    by (simp add: s(4) console_log_def checkCountAfterImport_frame)
qed

lemma exit_code_insertCollections: "exit_code (insertCollections env names w) = Some 0"
  by (simp add: insertCollections_def console_error_def split: prod.splits sum.splits)

subsection \<open>The reset in the sample worlds\<close>

lemma reset_models_broken:
  "first_fault broken_env reset_models = Some (Error ''MongoNetworkError'' ''connection closed'')"
  "deletes_ok broken_env = [Community, User]"
  "startSession_fault broken_env = None"
  by (simp_all add: broken_env_def sample_env_def reset_models_def)

lemma resetDatabase_calls_Community:
  assumes "startSession_fault env = None"
  shows "DeleteMany Community None \<in> set (calls (snd (resetDatabase env w)))"
  using assms by (simp add: resetDatabase_calls reset_models_def)

lemma sample_env_no_fault:
  "reset_fault sample_env = None" "startSession_fault sample_env = None"
  "first_fault sample_env reset_models = None" "deletes_ok sample_env = reset_models"
  by (simp_all add: reset_fault_def sample_env_def reset_models_def)

subsection \<open>Outside worlds that differ in the answers to the verification\<close>

text \<open>The reset and the load do not ask for what the verification stage asks.\<close>

lemma deleteMany_other_env:
  "deleteMany (env\<lparr>countDocuments_fault := cf, connect_fault := g\<rparr>) = deleteMany env"
  by (simp add: deleteMany_def fun_eq_iff)

lemma resetDatabase_other_env:
  "resetDatabase (env\<lparr>countDocuments_fault := cf, connect_fault := g\<rparr>) = resetDatabase env"
proof -
  let ?env = "env\<lparr>countDocuments_fault := cf, connect_fault := g\<rparr>"
  have "reset_callback ?env = reset_callback env"
    by (simp add: reset_callback_def deleteMany_other_env)
  moreover have "withTransaction ?env = withTransaction env"
    by (simp add: withTransaction_def fun_eq_iff split: prod.splits sum.splits)
  moreover have "startSession ?env = startSession env"
    by (simp add: startSession_def fun_eq_iff)
  ultimately have "resetDatabase ?env w = resetDatabase env w" for w
    unfolding resetDatabase_def by (simp only:)
  then show ?thesis by (rule ext)
qed

lemma insert_each_other_env:
  "insert_each (env\<lparr>countDocuments_fault := cf, connect_fault := g\<rparr>) names w =
   insert_each env names w"
proof (induction names arbitrary: w)
  case Nil
  then show ?case by simp
next
  case (Cons c rest)
  have "insertMany (env\<lparr>countDocuments_fault := cf, connect_fault := g\<rparr>) = insertMany env"
    by (simp add: insertMany_def fun_eq_iff Let_def split: option.splits prod.splits)
  then have "switch_collection (env\<lparr>countDocuments_fault := cf, connect_fault := g\<rparr>) =
      switch_collection env"
    by (simp add: switch_collection_def fun_eq_iff)
  moreover have "fixture (env\<lparr>countDocuments_fault := cf, connect_fault := g\<rparr>) c = fixture env c"
    by (simp add: fixture_def fixture_path_def cong: sum.case_cong)
  ultimately show ?case
    unfolding insert_each_Cons by (simp only: Cons.IH)
qed

subsection \<open>The listing\<close>

lemma list_files_Cons:
  "list_files env dir (file # files) w =
     (case stat_isFile env (path_resolve env dir file) of
        Inl e \<Rightarrow> (Inl e, w)
      | Inr isFile \<Rightarrow>
          if isFile then
            (case readFile env (path_resolve env dir file) of
               Inl e \<Rightarrow> (Inl e, w)
             | Inr data \<Rightarrow>
                 (case JSON_parse env data of
                    Inl e \<Rightarrow> (Inl e, w)
                  | Inr docs \<Rightarrow>
                      (case length_toString env docs of
                         Inl e \<Rightarrow> (Inl e, w)
                       | Inr n \<Rightarrow>
                           list_files env dir files
                             (w\<lparr>console := console w @ [table_row file n]\<rparr>))))
          else list_files env dir files w)"
  by simp

lemma list_files_console_grows:
  "set (console w) \<subseteq> set (console (snd (list_files env dir files w)))"
proof (induction files arbitrary: w)
  case Nil
  then show ?case by simp
next
  case (Cons f files)
  have "set (console w) \<subseteq> set (console (snd (list_files env dir files w)))"
    and "\<And>n. set (console w) \<subseteq>
      set (console (snd (list_files env dir files (w\<lparr>console := console w @ [table_row f n]\<rparr>))))"
    using Cons.IH[of w] Cons.IH[of "w\<lparr>console := console w @ [table_row f n]\<rparr>" for n]
    by auto
  then show ?case
    unfolding list_files_Cons by (simp split: sum.splits)
qed

lemma list_files_frame:
  "db (snd (list_files env dir files w)) = db w \<and>
   calls (snd (list_files env dir files w)) = calls w \<and>
   connect_calls (snd (list_files env dir files w)) = connect_calls w \<and>
   exit_code (snd (list_files env dir files w)) = exit_code w"
proof (induction files arbitrary: w)
  case Nil
  then show ?case by simp
next
  case (Cons f files)
  show ?case
    unfolding list_files_Cons by (simp add: Cons.IH split: sum.splits)
qed

lemma list_files_listable_prefix:
  assumes "\<forall>f \<in> set pre. listable env dir f"
  shows "\<exists>w'. list_files env dir (pre @ rest) w = list_files env dir rest w' \<and>
              set (console w) \<subseteq> set (console w')"
  using assms
proof (induction pre arbitrary: w)
  case Nil
  then show ?case by auto
next
  case (Cons f pre)
  from Cons.prems have l: "listable env dir f" and p: "\<forall>f \<in> set pre. listable env dir f"
    by simp_all
  have "\<exists>w1. list_files env dir (f # pre @ rest) w = list_files env dir (pre @ rest) w1 \<and>
      set (console w) \<subseteq> set (console w1)"
  proof (cases "stat_isFile env (path_resolve env dir f)")
    case (Inl e)
    with l show ?thesis by (simp add: listable_def)
  next
    case (Inr isFile)
    show ?thesis
    proof (cases isFile)
      case False
      with Inr have "list_files env dir (f # pre @ rest) w = list_files env dir (pre @ rest) w"
        unfolding list_files_Cons by simp
      then show ?thesis by blast
    next
      case True
      with Inr l obtain data docs n where
        "readFile env (path_resolve env dir f) = Inr data"
        "JSON_parse env data = Inr docs" "length_toString env docs = Inr n"
        by (auto simp: listable_def split: sum.splits)
      with Inr True have "list_files env dir (f # pre @ rest) w =
          list_files env dir (pre @ rest) (w\<lparr>console := console w @ [table_row f n]\<rparr>)"
        unfolding list_files_Cons by simp
      moreover have "set (console w) \<subseteq> set (console (w\<lparr>console := console w @ [table_row f n]\<rparr>))"
        by auto
      ultimately show ?thesis by blast
    qed
  qed
  then obtain w1 where w1: "list_files env dir (f # pre @ rest) w = list_files env dir (pre @ rest) w1"
    and c1: "set (console w) \<subseteq> set (console w1)" by blast
  from Cons.IH[OF p, of w1] obtain w' where
    "list_files env dir (pre @ rest) w1 = list_files env dir rest w'"
    "set (console w1) \<subseteq> set (console w')" by blast
  with w1 c1 show ?case by auto
qed

lemma listSampleData_console:
  assumes "readdir env (path_resolve env (dirname env) ''../../sample_data'') = Inr files"
  shows "set (console (snd (list_files env (path_resolve env (dirname env) ''../../sample_data'') files
            (console_log [table_header ''| File Name'']
                 (console_log [Str (''Sample Data Files:'' @ [CHR 0x0A])] w)))))
         \<subseteq> set (console (listSampleData env w))"
  using assms
  by (auto simp: listSampleData_def listSampleData_try_def await_beta console_log_def
      console_error_def Let_def split: sum.splits prod.splits)

subsection \<open>The counts after a load\<close>

lemma sum_loaded_count:
  assumes "model_of c = Some m" and "fixture env c = Inr docs"
  shows "sum_list (map (loaded env m) names) = count_list names c * length (records_of docs)"
proof (induction names)
  case Nil
  then show ?case by simp
next
  case (Cons x names)
  have "loaded env m x = (if x = c then length (records_of docs) else 0)"
  proof (cases "x = c")
    case True
    with assms show ?thesis by (simp add: loaded_def)
  next
    case False
    with model_of_inj[OF _ assms(1), of x] have "model_of x \<noteq> Some m" by blast
    with False show ?thesis by (simp add: loaded_def)
  qed
  with Cons show ?case by simp
qed

lemma db_insertCollections:
  "db (insertCollections env names w) = db (snd (insertCollections_try env names w))"
  by (simp add: insertCollections_def case_prod_beta console_error_def split: sum.splits)

lemma sample_fixtures:
  "fixture sample_env ''users'' = Inr (JArr [JObj [], JObj []])"
  "fixture sample_env ''events'' = Inr (JArr [JObj []])"
  by (simp_all add: fixture_def fixture_path_def sample_env_def)

lemma insertMany_sample: "fst (insertMany sample_env m docs w) = Inr ()"
  by (simp add: insertMany_fst sample_env_def)

lemma insert_each_sample_users_events:
  "fst (insert_each sample_env [''users'', ''events''] w) = Inr ()"
  "fst (insert_each sample_env [''users'', ''users''] w) = Inr ()"
  by (simp_all add: insert_each_Cons sample_fixtures switch_collection_model_of model_of_def
      insertMany_sample)

lemma connect_sample: "connect_fault sample_env n = None"
  by (simp add: sample_env_def)

lemma insertCollections_try_fst:
  "fst (insertCollections_try env names w) =
     (case connect_fault env (connect_calls w) of
        Some e \<Rightarrow> Inl e
      | None \<Rightarrow>
          (case reset_fault env of
             Some e \<Rightarrow> Inl e
           | None \<Rightarrow>
               fst (insert_each env names (snd (resetDatabase env (snd (connect env ''talawa-api'' w)))))))"
  by (simp add: insertCollections_try_def await_beta connect_fst resetDatabase_fst
      split: sum.splits option.splits)

lemma load_sample_users_events:
  "fst (insertCollections_try sample_env [''users'', ''events''] (start stale)) = Inr ()"
  "fst (insertCollections_try sample_env [''users'', ''users''] (start stale)) = Inr ()"
  unfolding insertCollections_try_fst
  by (simp_all only: connect_sample sample_env_no_fault insert_each_sample_users_events option.case)

lemma model_of_users_events: "model_of ''users'' = Some User" "model_of ''events'' = Some Event"
  by (simp_all add: model_of_def)

lemma db_main: "db (main env argvItems w) =
    db (snd (insertCollections_try env (selected argvItems) (listSampleData env w)))"
  by (simp add: main_def db_insertCollections)

lemma loaded_same_fixtures:
  assumes "dirname env2 = dirname env1" and "path_resolve env2 = path_resolve env1"
    and "readFile env2 = readFile env1" and "JSON_parse env2 = JSON_parse env1"
  shows "loaded env2 = loaded env1"
proof -
  have "fixture env2 c = fixture env1 c" for c
    unfolding fixture_def fixture_path_def assms ..
  then show ?thesis
    by (simp add: loaded_def fun_eq_iff)
qed

lemma connect_calls_listSampleData: "connect_calls (listSampleData env w) = connect_calls w"
  by (simp add: listSampleData_def listSampleData_try_def await_beta console_log_def
      console_error_def list_files_frame Let_def case_prod_beta split: sum.splits)

lemma selected_users_events: "selected (Some ''users,events'') = [''users'', ''events'']"
  by (simp add: selected_def)

lemma load_ok_sample: "load_ok sample_env (Some ''users,events'') d"
  unfolding load_ok_def selected_users_events insertCollections_try_fst
  by (simp only: connect_sample sample_env_no_fault insert_each_sample_users_events option.case)

subsection \<open>The inserts of a run\<close>

lemma inserts_append: "inserts (xs @ ys) = inserts xs @ inserts ys"
  by (induction xs rule: inserts.induct) simp_all

lemma inserts_deletes: "inserts (map (\<lambda>m. DeleteMany m None) ms) = []"
  by (induction ms) simp_all

lemma inserts_resetDatabase:
  "startSession_fault env = None \<Longrightarrow>
   inserts (calls (snd (resetDatabase env w))) = inserts (calls w)"
  by (simp add: resetDatabase_calls inserts_append inserts_deletes)

lemma inserts_print_counts:
  "inserts (calls (snd (print_counts env table w))) = inserts (calls w)"
proof (induction table arbitrary: w)
  case Nil
  then show ?case by simp
next
  case (Cons p table)
  obtain name m where p: "p = (name, m)" by (cases p)
  show ?case
    unfolding p print_counts_Cons
    by (simp add: Cons.IH inserts_append split: option.splits)
qed

lemma inserts_checkCountAfterImport:
  "inserts (calls (checkCountAfterImport env w)) = inserts (calls w)"
  by (simp add: checkCountAfterImport_def checkCountAfterImport_try_def await_beta
      connect_fst connect_snd console_log_def console_error_def inserts_print_counts inserts_append
      case_prod_beta split: sum.splits option.splits)

lemma inserts_insert_each:
  "fst (insert_each env names w) = Inr () \<Longrightarrow>
   inserts (calls (snd (insert_each env names w))) = inserts (calls w) @ List.map_filter model_of names"
proof (induction names arbitrary: w)
  case Nil
  then show ?case by simp
next
  case (Cons c rest)
  from Cons.prems obtain docs where f: "fixture env c = Inr docs"
    unfolding insert_each_Cons by (auto split: sum.splits)
  from Cons.prems f have s: "fst (switch_collection env c docs w) = Inr ()"
    unfolding insert_each_Cons by (auto split: sum.splits)
  let ?w = "console_log [Str magenta, Str (''Added '' @ c @ '' collection'')]
                    (snd (switch_collection env c docs w))"
  from f s have e: "insert_each env (c # rest) w = insert_each env rest ?w"
    unfolding insert_each_Cons by simp
  with Cons.prems have "fst (insert_each env rest ?w) = Inr ()" by simp
  from Cons.IH[OF this] have
    "inserts (calls (snd (insert_each env rest ?w))) = inserts (calls ?w) @ List.map_filter model_of rest" .
  moreover have "inserts (calls ?w) = inserts (calls w) @ (case model_of c of Some m \<Rightarrow> [m] | None \<Rightarrow> [])"
    by (simp add: console_log_def switch_collection_model_of insertMany_frame inserts_append
        split: option.splits)
  ultimately show ?case
    unfolding e by (simp split: option.splits)
qed

lemma calls_listSampleData: "calls (listSampleData env w) = calls w"
  by (simp add: listSampleData_def listSampleData_try_def await_beta console_log_def
      console_error_def list_files_frame Let_def case_prod_beta split: sum.splits)

lemma nat_toString_0: "nat_toString 0 = ''0''"
  by (simp add: nat_toString.simps)

lemma run_sample_users:
  "length (run sample_env (Some ''users,events'') stale User) = 2"
  using insertCollections_try_success_length[of sample_env "[''users'', ''events'']" _ User]
    load_ok_sample[of stale]
    sum_loaded_count[OF model_of_users_events(1) sample_fixtures(1), of "[''users'', ''events'']"]
  by (simp add: run_def load_ok_def db_main selected_users_events records_of_def)

lemma nat_toString_2: "nat_toString 2 = ''2''"
  by (simp add: nat_toString.simps)

lemma count_faults_sample: "countDocuments_fault sample_env m = None"
  by (simp add: sample_env_def)

lemma insert_each_no_fixture:
  "fixture env c = Inl e \<Longrightarrow> insert_each env (c # rest) w = (Inl e, w)"
  by (simp add: insert_each_Cons)

lemma insert_each_invalid_name:
  "model_of c = None \<Longrightarrow> fixture env c = Inr docs \<Longrightarrow>
   insert_each env (c # rest) w =
     insert_each env rest
       (console_log [Str magenta, Str (''Added '' @ c @ '' collection'')]
         (console_log [Str red, Str (''Invalid collection name: '' @ c)] w))"
  by (simp add: insert_each_Cons switch_collection_model_of)

lemma fixture_bogus: "fixture sample_env ''bogus'' = Inl (Error ''Error'' ''ENOENT'')"
  by (simp add: fixture_def fixture_path_def sample_env_def)

lemma table_row_users_2:
  "table_row ''users.json'' ''2'' =
     ConsoleLog [Str ''| users.json                  | 2              |'']"
  by code_simp

lemma calls_resetDatabase_no_session:
  "startSession_fault env = Some e \<Longrightarrow> calls (snd (resetDatabase env w)) = calls w"
  by (simp add: resetDatabase_def startSession_def)

lemma inserts_resetDatabase_any:
  "inserts (calls (snd (resetDatabase env w))) = inserts (calls w)"
proof (cases "startSession_fault env")
  case None
  then show ?thesis by (rule inserts_resetDatabase)
next
  case (Some e)
  then show ?thesis by (simp add: calls_resetDatabase_no_session)
qed

lemma inserts_switch_collection:
  "inserts (calls (snd (switch_collection env c docs w))) =
     inserts (calls w) @ List.map_filter model_of [c]"
  by (simp add: switch_collection_model_of insertMany_frame console_log_def inserts_append
      List.map_filter_simps split: option.splits)

lemma inserts_insert_each_prefix:
  "\<exists>j. inserts (calls (snd (insert_each env names w))) =
        inserts (calls w) @ List.map_filter model_of (take j names)"
proof (induction names arbitrary: w)
  case Nil
  then show ?case by simp
next
  case (Cons c rest)
  show ?case
  proof (cases "fixture env c")
    case (Inl e)
    then have "inserts (calls (snd (insert_each env (c # rest) w))) =
        inserts (calls w) @ List.map_filter model_of (take 0 (c # rest))"
      by (simp add: insert_each_Cons)
    then show ?thesis by blast
  next
    case (Inr docs)
    show ?thesis
    proof (cases "fst (switch_collection env c docs w)")
      case (Inl e)
      with Inr have "inserts (calls (snd (insert_each env (c # rest) w))) =
          inserts (calls w) @ List.map_filter model_of (take 1 (c # rest))"
        by (simp add: insert_each_Cons inserts_switch_collection)
      then show ?thesis by blast
    next
      case s: (Inr u)
      let ?w = "console_log [Str magenta, Str (''Added '' @ c @ '' collection'')]
                    (snd (switch_collection env c docs w))"
      from Cons.IH[of ?w] obtain j where
        "inserts (calls (snd (insert_each env rest ?w))) =
           inserts (calls ?w) @ List.map_filter model_of (take j rest)" by blast
      moreover have "inserts (calls ?w) = inserts (calls w) @ List.map_filter model_of [c]"
        by (simp add: console_log_def inserts_switch_collection)
      ultimately have "inserts (calls (snd (insert_each env (c # rest) w))) =
          inserts (calls w) @ List.map_filter model_of (take (Suc j) (c # rest))"
        using Inr s by (simp add: insert_each_Cons List.map_filter_simps split: option.splits)
      then show ?thesis by blast
    qed
  qed
qed

lemma inserts_insertCollections_try_prefix:
  "\<exists>j. inserts (calls (snd (insertCollections_try env names w))) =
        inserts (calls w) @ List.map_filter model_of (take j names)"
proof -
  let ?w1 = "snd (connect env ''talawa-api'' w)"
  let ?w2 = "snd (resetDatabase env ?w1)"
  have 1: "inserts (calls ?w1) = inserts (calls w)"
    by (simp add: connect_snd inserts_append)
  have 2: "inserts (calls ?w2) = inserts (calls w)"
    by (simp add: inserts_resetDatabase_any 1)
  from inserts_insert_each_prefix[of env names ?w2] obtain j where
    3: "inserts (calls (snd (insert_each env names ?w2))) =
        inserts (calls w) @ List.map_filter model_of (take j names)"
    unfolding 2 by blast
  have "inserts (calls (snd (insertCollections_try env names w))) = inserts (calls w) @ List.map_filter model_of (take 0 names)
      \<or> inserts (calls (snd (insertCollections_try env names w))) = inserts (calls w) @ List.map_filter model_of (take j names)"
    using 1 2 3
    by (simp add: insertCollections_try_def await_beta console_log_def
        inserts_checkCountAfterImport split: sum.splits)
  then show ?thesis by blast
qed

lemma calls_main:
  "calls (main env argvItems w) =
     calls (snd (insertCollections_try env (selected argvItems) (listSampleData env w)))"
  by (simp add: main_def insertCollections_def case_prod_beta console_error_def split: sum.splits)

lemma db_insert_each_other:
  "\<forall>c \<in> set names. model_of c \<noteq> Some m \<Longrightarrow> db (snd (insert_each env names w)) m = db w m"
proof (induction names arbitrary: w)
  case Nil
  then show ?case by simp
next
  case (Cons c rest)
  from Cons.prems have c: "model_of c \<noteq> Some m" and r: "\<forall>c \<in> set rest. model_of c \<noteq> Some m"
    by simp_all
  from c have s: "db (snd (switch_collection env c docs w)) m = db w m" for docs
    by (auto simp: switch_collection_model_of insertMany_db console_log_def split: option.splits)
  show ?case
    by (simp add: insert_each_Cons Cons.IH[OF r] s console_log_def split: sum.splits)
qed

lemma db_try_after_reset:
  assumes "connect_fault env (connect_calls w) = None" and "reset_fault env = None"
    and "\<forall>c \<in> set names. model_of c \<noteq> Some m"
  shows "db (snd (insertCollections_try env names w)) m = []"
proof -
  let ?w1 = "snd (connect env ''talawa-api'' w)"
  let ?w2 = "snd (resetDatabase env ?w1)"
  have r: "fst (resetDatabase env ?w1) = Inr ()"
    using assms(2) by (simp add: resetDatabase_fst)
  have "db (snd (insert_each env names ?w2)) m = []"
    using db_insert_each_other[OF assms(3), of env ?w2] resetDatabase_success_db[OF r, of m]
    by simp
  then show ?thesis
    using assms(1) r
    by (simp add: insertCollections_try_def await_beta connect_fst console_log_def
        checkCountAfterImport_frame split: sum.splits)
qed

lemma take_two_cases: "take j [a, b] = [] \<or> take j [a, b] = [a] \<or> take j [a, b] = [a, b]"
  by (cases j; cases "j - 1") auto

lemma length_count_table: "length count_table = 9"
  by (simp add: count_table_def)

subsection \<open>The database a run leaves\<close>

lemma switch_collection_db_determined:
  assumes "db w = db w'"
  shows "fst (switch_collection env c docs w) = fst (switch_collection env c docs w')"
    and "db (snd (switch_collection env c docs w)) = db (snd (switch_collection env c docs w'))"
proof -
  show "fst (switch_collection env c docs w) = fst (switch_collection env c docs w')"
    by (simp add: switch_collection_model_of insertMany_fst console_log_def assms
        split: option.splits)
  show "db (snd (switch_collection env c docs w)) = db (snd (switch_collection env c docs w'))"
    by (rule ext)
      (simp add: switch_collection_model_of insertMany_db console_log_def assms
        split: option.splits)
qed

lemma insert_each_db_determined:
  "db w = db w' \<Longrightarrow>
   fst (insert_each env names w) = fst (insert_each env names w') \<and>
   db (snd (insert_each env names w)) = db (snd (insert_each env names w'))"
proof (induction names arbitrary: w w')
  case Nil
  then show ?case by simp
next
  case (Cons c rest)
  note d = switch_collection_db_determined[OF Cons.prems, of env c]
  have "db (console_log a (snd (switch_collection env c docs w))) =
        db (console_log a (snd (switch_collection env c docs w')))" for a docs
    by (simp add: console_log_def d(2))
  from Cons.IH[OF this] show ?case
    by (simp add: insert_each_Cons d Cons.prems split: sum.splits)
qed

lemma db_listSampleData: "db (listSampleData env w) = db w"
  by (simp add: listSampleData_def listSampleData_try_def await_beta console_log_def
      console_error_def list_files_frame Let_def case_prod_beta split: sum.splits)

text \<open>By the first step that fails:\<close>

lemma run_eq:
  "run env argvItems d =
     (case connect_fault env 0 of
        Some e \<Rightarrow> d
      | None \<Rightarrow>
          (case reset_fault env of
             Some e \<Rightarrow>
               (\<lambda>m. if startSession_fault env = None \<and> m \<in> set (deletes_ok env) then []
                    else d m)
           | None \<Rightarrow> db (snd (insert_each env (selected argvItems) (start (\<lambda>m. []))))))"
proof -
  let ?names = "selected argvItems"
  let ?w0 = "listSampleData env (start d)"
  let ?w1 = "snd (connect env ''talawa-api'' ?w0)"
  let ?w2 = "snd (resetDatabase env ?w1)"
  have w0: "connect_calls ?w0 = 0" "db ?w0 = d"
    by (simp_all add: connect_calls_listSampleData db_listSampleData start_def)
  have w1: "db ?w1 = d"
    by (simp add: connect_snd w0)
  have w2: "db ?w2 = (\<lambda>m. if startSession_fault env = None \<and> m \<in> set (deletes_ok env) then []
                    else d m)"
    by (rule ext) (simp add: resetDatabase_db w1)
  have "db ?w2 = db (start (\<lambda>m. []))" if "reset_fault env = None"
  proof (rule ext)
    fix m
    from that have "fst (resetDatabase env ?w1) = Inr ()"
      by (simp add: resetDatabase_fst)
    from resetDatabase_success_db[OF this, of m] show "db ?w2 m = db (start (\<lambda>m. [])) m"
      by (simp add: start_def)
  qed
  from insert_each_db_determined[OF this, of env ?names]
  have w3: "db (snd (insert_each env ?names ?w2)) =
      db (snd (insert_each env ?names (start (\<lambda>m. []))))" if "reset_fault env = None"
    using that by simp
  show ?thesis
    unfolding run_def db_main
    by (simp add: insertCollections_try_def await_beta connect_fst resetDatabase_fst w0 w1 w2 w3
        console_log_def checkCountAfterImport_frame split: option.splits sum.splits)
qed

subsection \<open>The listing, entry by entry\<close>

lemma listable_entry: "listable env dir f \<longleftrightarrow> (\<exists>row. entry env dir f = Inr row)"
  by (simp add: listable_def entry_def split: sum.splits)

lemma list_files_entry:
  "list_files env dir (f # files) w =
     (case entry env dir f of
        Inl e \<Rightarrow> (Inl e, w)
      | Inr None \<Rightarrow> list_files env dir files w
      | Inr (Some row) \<Rightarrow> list_files env dir files (w\<lparr>console := console w @ [row]\<rparr>))"
  by (simp add: entry_def split: sum.splits)

text \<open>What the loop prints and how it ends.\<close>

lemma list_files_result:
  "console (snd (list_files env dir files w)) = console w @ listed_rows env dir files \<and>
   fst (list_files env dir files w) =
     (case dropWhile (listable env dir) files of
        [] \<Rightarrow> Inr ()
      | f # rest \<Rightarrow> (case entry env dir f of Inl e \<Rightarrow> Inl e | Inr row \<Rightarrow> Inr ()))"
proof (induction files arbitrary: w)
  case Nil
  then show ?case by (simp add: listed_rows_def)
next
  case (Cons f files)
  show ?case
  proof (cases "entry env dir f")
    case (Inl e)
    then have "\<not> listable env dir f" by (simp add: listable_entry)
    with Inl show ?thesis
      unfolding list_files_entry by (simp add: listed_rows_def)
  next
    case (Inr row)
    then have l: "listable env dir f" by (simp add: listable_entry)
    have rows: "listed_rows env dir (f # files) =
        (case row of None \<Rightarrow> [] | Some r \<Rightarrow> [r]) @ listed_rows env dir files"
      using l Inr by (simp add: listed_rows_def List.map_filter_simps split: option.splits)
    show ?thesis
      unfolding list_files_entry using Inr l
      by (simp add: Cons.IH rows split: option.splits)
  qed
qed

lemma listSampleData_console_eq:
  assumes "readdir env (path_resolve env (dirname env) ''../../sample_data'') = Inr files"
  shows "console (listSampleData env w) =
     console w @
     [ConsoleLog [Str (''Sample Data Files:'' @ [CHR 0x0A])],
      ConsoleLog [table_header ''| File Name'']] @
     listed_rows env (path_resolve env (dirname env) ''../../sample_data'') files @
     [listing_end env (path_resolve env (dirname env) ''../../sample_data'') files]"
proof -
  let ?dir = "path_resolve env (dirname env) ''../../sample_data''"
  let ?w0 = "console_log [table_header ''| File Name'']
               (console_log [Str (''Sample Data Files:'' @ [CHR 0x0A])] w)"
  note r = list_files_result[of env ?dir files ?w0]
  have c: "console (snd (list_files env ?dir files ?w0)) =
      console w @ [ConsoleLog [Str (''Sample Data Files:'' @ [CHR 0x0A])],
        ConsoleLog [table_header ''| File Name'']] @ listed_rows env ?dir files"
    using r by (simp add: console_log_def)
  have e: "(case fst (list_files env ?dir files ?w0) of
        Inl err \<Rightarrow> ConsoleError [Str red, Str (''Error listing sample data: '' @ error_toString err)]
      | Inr u \<Rightarrow> ConsoleLog []) = listing_end env ?dir files"
  proof (cases "dropWhile (listable env ?dir) files")
    case Nil
    show ?thesis
      unfolding listing_end_def conjunct2[OF r] Nil by (simp only: list.case sum.case)
  next
    case (Cons f rest)
    show ?thesis
      unfolding listing_end_def conjunct2[OF r] Cons
      by (cases "entry env ?dir f") (simp_all only: list.case sum.case)
  qed
  have "console (listSampleData env w) =
      console (snd (list_files env ?dir files ?w0)) @
      [case fst (list_files env ?dir files ?w0) of
        Inl err \<Rightarrow> ConsoleError [Str red, Str (''Error listing sample data: '' @ error_toString err)]
      | Inr u \<Rightarrow> ConsoleLog []]"
    using assms
    by (simp add: listSampleData_def listSampleData_try_def await_beta console_log_def
        console_error_def Let_def split: sum.splits)
  then show ?thesis
    unfolding e c by simp
qed

lemma listed_rows_stops:
  assumes "\<forall>f \<in> set pre. listable env dir f" and "entry env dir bad = Inl e"
  shows "listed_rows env dir (pre @ bad # post) = listed_rows env dir pre"
    and "listing_end env dir (pre @ bad # post) =
      ConsoleError [Str red, Str (''Error listing sample data: '' @ error_toString e)]"
proof -
  from assms(2) have n: "\<not> listable env dir bad" by (simp add: listable_entry)
  with assms(1) have t: "takeWhile (listable env dir) (pre @ bad # post) = pre"
    and d: "dropWhile (listable env dir) (pre @ bad # post) = bad # post"
    by (simp_all add: takeWhile_append2 dropWhile_append2)
  from assms(1) have p: "takeWhile (listable env dir) pre = pre" by simp
  show "listed_rows env dir (pre @ bad # post) = listed_rows env dir pre"
    unfolding listed_rows_def t p ..
  show "listing_end env dir (pre @ bad # post) =
      ConsoleError [Str red, Str (''Error listing sample data: '' @ error_toString e)]"
    unfolding listing_end_def d by (simp add: assms(2))
qed

lemma nat_toString_Suc: "nat_toString (Suc 0) = ''1''" "nat_toString (Suc (Suc 0)) = ''2''"
proof -
  have "nat_toString 1 = ''1''" by (simp add: nat_toString.simps)
  then show "nat_toString (Suc 0) = ''1''" by simp
  from nat_toString_2 show "nat_toString (Suc (Suc 0)) = ''2''" by (simp add: numeral_2_eq_2)
qed

section \<open>The claims\<close>

subsection \<open>C5: the exit status\<close>

text \<open>
  C5.  Every run of the pipeline ends the process with exit status 0, whatever the
  command line selects, whatever the database holds and whatever the outside world
  answers: a failed listing, a failed reset, a failed load or a failed count query are
  all logged, and \<^verbatim>\<open>process.exit(0)\<close> in the \<^verbatim>\<open>finally\<close> block runs after each.
  (\<^verbatim>\<open>connect\<close> is taken as the spec gives it: it returns or throws.)
\<close>

theorem pipeline_exits_0: "exit_code (main env argvItems w) = Some 0"
  by (simp add: main_def insertCollections_def console_error_def split: prod.splits sum.splits)

subsection \<open>C1: the reset is not atomic\<close>

text \<open>
  C1 (the code departs from the claim).  The claim is that the reset removes the
  documents of the nine collections as one atomic unit: all deletions or none.  The
  callback of \<^verbatim>\<open>withTransaction\<close> calls \<^verbatim>\<open>deleteMany({})\<close> without the session, so every
  deletion is committed by itself.  Here the third deletion fails: the reset throws,
  the transaction is aborted, and the communities and the users stay deleted while the
  organizations and the events keep their documents.
\<close>

theorem reset_keeps_partial_deletion:
  "db (start stale) Community = [JStr ''old''] \<and>
   db (start stale) User = [JStr ''old''] \<and>
   fst (resetDatabase broken_env (start stale)) =
     Inl (Error ''MongoNetworkError'' ''connection closed'') \<and>
   calls (snd (resetDatabase broken_env (start stale))) =
     [StartSession 0, StartTransaction 0, DeleteMany Community None, DeleteMany User None,
      DeleteMany Organization None, AbortTransaction 0, EndSession 0] \<and>
   db (snd (resetDatabase broken_env (start stale))) Community = [] \<and>
   db (snd (resetDatabase broken_env (start stale))) User = [] \<and>
   db (snd (resetDatabase broken_env (start stale))) Organization = [JStr ''old''] \<and>
   db (snd (resetDatabase broken_env (start stale))) Event = [JStr ''old'']"
proof -
  have "calls (snd (resetDatabase broken_env (start stale))) =
     [StartSession 0, StartTransaction 0, DeleteMany Community None, DeleteMany User None,
      DeleteMany Organization None, AbortTransaction 0, EndSession 0]"
    by (simp add: resetDatabase_calls reset_fault_def reset_models_broken)
       (simp add: start_def reset_models_def)
  then show ?thesis
    by (simp add: resetDatabase_fst resetDatabase_db reset_fault_def reset_models_broken
        start_def stale_def)
qed

subsection \<open>C7: the deletions are not in the transaction\<close>

text \<open>
  What \<^verbatim>\<open>resetDatabase\<close> does with the session, for every outside world that gives one:
  it starts one transaction on it, calls \<^verbatim>\<open>deleteMany\<close> between the start of that
  transaction and its commit or abort (the deletions up to the first that fails, in the
  order of the source, each without the session), throws the error of the first
  deletion that fails or else of the commit, and calls \<^verbatim>\<open>endSession\<close> last on either
  path, so that the sessions open afterwards are those open before.
\<close>

lemma resetDatabase_session_calls:
  assumes "startSession_fault env = None"
  shows "calls (snd (resetDatabase env w)) =
           calls w @ [StartSession (next_session w), StartTransaction (next_session w)] @
           map (\<lambda>m. DeleteMany m None) (take (Suc (length (deletes_ok env))) reset_models) @
           [if first_fault env reset_models = None
            then CommitTransaction (next_session w) else AbortTransaction (next_session w),
            EndSession (next_session w)] \<and>
         fst (resetDatabase env w) =
           (case first_fault env reset_models of
              Some e \<Rightarrow> Inl e
            | None \<Rightarrow> (case commitTransaction_fault env of Some e \<Rightarrow> Inl e | None \<Rightarrow> Inr ())) \<and>
         open_sessions (snd (resetDatabase env w)) = open_sessions w"
  using assms
  by (simp add: resetDatabase_calls resetDatabase_fst resetDatabase_frame reset_fault_def
      split: option.splits)

text \<open>
  C7 (the code departs from the claim).  The claim is that the reset acquires the
  session, wraps all deletions in one transaction, propagates a failure and releases the
  session on every path.  The session is acquired and released and the failure is
  thrown on, but no deletion is part of the transaction: each \<^verbatim>\<open>deleteMany({})\<close> is called
  without the session, here as in C1.  In this run the tenth deletion fails: the log
  shows the ten calls between the start and the abort of the transaction, none with a
  session; the error is thrown on and the session is ended; and the nine deletions made
  inside the callback outlive the abort of the transaction that was to hold them.
\<close>

theorem reset_deletions_outside_transaction:
  "calls (snd (resetDatabase late_env (start stale))) =
     [StartSession 0, StartTransaction 0,
      DeleteMany Community None, DeleteMany User None, DeleteMany Organization None,
      DeleteMany ActionItemCategory None, DeleteMany AgendaCategoryModel None,
      DeleteMany Event None, DeleteMany Venue None, DeleteMany RecurrenceRule None,
      DeleteMany Post None, DeleteMany AppUserProfile None,
      AbortTransaction 0, EndSession 0] \<and>
   fst (resetDatabase late_env (start stale)) =
     Inl (Error ''MongoNetworkError'' ''connection closed'') \<and>
   open_sessions (snd (resetDatabase late_env (start stale))) = [] \<and>
   db (start stale) Post = [JStr ''old''] \<and>
   db (snd (resetDatabase late_env (start stale))) Community = [] \<and>
   db (snd (resetDatabase late_env (start stale))) Post = [] \<and>
   db (snd (resetDatabase late_env (start stale))) AppUserProfile = [JStr ''old'']"
proof -
  have f: "first_fault late_env reset_models = Some (Error ''MongoNetworkError'' ''connection closed'')"
    "deletes_ok late_env =
       [Community, User, Organization, ActionItemCategory, AgendaCategoryModel, Event, Venue,
        RecurrenceRule, Post]"
    "startSession_fault late_env = None"
    by (simp_all add: late_env_def sample_env_def reset_models_def)
  have "calls (snd (resetDatabase late_env (start stale))) =
     [StartSession 0, StartTransaction 0,
      DeleteMany Community None, DeleteMany User None, DeleteMany Organization None,
      DeleteMany ActionItemCategory None, DeleteMany AgendaCategoryModel None,
      DeleteMany Event None, DeleteMany Venue None, DeleteMany RecurrenceRule None,
      DeleteMany Post None, DeleteMany AppUserProfile None,
      AbortTransaction 0, EndSession 0]"
    by (simp add: resetDatabase_calls f) (simp add: start_def reset_models_def)
  moreover have "open_sessions (snd (resetDatabase late_env (start stale))) = []"
    by (simp add: resetDatabase_frame start_def)
  ultimately show ?thesis
    by (simp add: resetDatabase_fst resetDatabase_db reset_fault_def f start_def stale_def)
qed

subsection \<open>C10: the reset also empties the Community collection\<close>

text \<open>
  C10.  A reset that succeeds has called \<^verbatim>\<open>Community.deleteMany({})\<close> and leaves the
  Community collection empty; the loop of the load stage never changes that
  collection, whatever names it is given.
\<close>

theorem reset_empties_Community:
  assumes "fst (resetDatabase env w) = Inr ()"
  shows "db (snd (resetDatabase env w)) Community = [] \<and>
         DeleteMany Community None \<in> set (calls (snd (resetDatabase env w))) \<and>
         (\<forall>names w'. db (snd (insert_each env names w')) Community = db w' Community)"
proof -
  from assms have "reset_fault env = None"
    by (simp add: resetDatabase_fst split: option.splits)
  then have "startSession_fault env = None"
    by (simp add: reset_fault_def split: option.splits)
  then show ?thesis
    using assms by (simp add: resetDatabase_success_db resetDatabase_calls_Community insert_each_frame)
qed

theorem reset_empties_Community_witness:
  "fst (resetDatabase sample_env (start stale)) = Inr () \<and>
   db (start stale) Community = [JStr ''old''] \<and>
   db (snd (resetDatabase sample_env (start stale))) Community = [] \<and>
   DeleteMany Community None \<in> set (calls (snd (resetDatabase sample_env (start stale))))"
  using reset_empties_Community [of sample_env "start stale"]
  by (simp add: resetDatabase_fst sample_env_no_fault) (simp add: start_def stale_def)

subsection \<open>C9: the verification stage only observes\<close>

text \<open>
  C9.  \<^verbatim>\<open>checkCountAfterImport\<close> leaves the content of every collection and the exit
  status as they were.  A failure inside it (of its \<^verbatim>\<open>connect\<close>, the second of the
  run, or of a count query) changes neither whether the \<^verbatim>\<open>try\<close> block of
  \<^verbatim>\<open>insertCollections\<close> succeeds, nor the database it leaves, nor the exit status 0:
  the run is the same in an outside world that differs only in those answers.
\<close>

theorem checkCountAfterImport_observes_only:
  "db (checkCountAfterImport env w) = db w \<and>
   exit_code (checkCountAfterImport env w) = exit_code w \<and>
   (let env' = env\<lparr>countDocuments_fault := cf,
                     connect_fault := (connect_fault env)(Suc (connect_calls w) := ce)\<rparr>
    in fst (insertCollections_try env' names w) = fst (insertCollections_try env names w) \<and>
       db (snd (insertCollections_try env' names w)) = db (snd (insertCollections_try env names w)) \<and>
       db (insertCollections env' names w) = db (insertCollections env names w) \<and>
       exit_code (insertCollections env' names w) = Some 0 \<and>
       exit_code (insertCollections env names w) = Some 0)"
proof -
  let ?env = "env\<lparr>countDocuments_fault := cf,
                     connect_fault := (connect_fault env)(Suc (connect_calls w) := ce)\<rparr>"
  have c: "connect ?env ''talawa-api'' w = connect env ''talawa-api'' w"
    by (simp add: connect_def)
  have t: "fst (insertCollections_try ?env names w) = fst (insertCollections_try env names w) \<and>
       db (snd (insertCollections_try ?env names w)) = db (snd (insertCollections_try env names w))"
    by (simp add: insertCollections_try_def await_beta c resetDatabase_other_env
        insert_each_other_env console_log_def checkCountAfterImport_frame split: sum.splits)
  then have "db (insertCollections ?env names w) = db (insertCollections env names w)"
    by (simp add: insertCollections_def case_prod_beta console_error_def split: sum.splits)
  with t show ?thesis
    by (simp add: checkCountAfterImport_frame exit_code_insertCollections Let_def)
qed

subsection \<open>C8: the listing reports the length of each fixture it reaches\<close>

text \<open>A file that the listing reaches gets its row.\<close>

lemma listSampleData_reaches:
  assumes "readdir env (path_resolve env (dirname env) ''../../sample_data'') = Inr (pre @ file # post)"
    and "\<forall>f \<in> set pre. listable env (path_resolve env (dirname env) ''../../sample_data'') f"
    and "stat_isFile env (path_resolve env (path_resolve env (dirname env) ''../../sample_data'') file) = Inr True"
    and "readFile env (path_resolve env (path_resolve env (dirname env) ''../../sample_data'') file) = Inr data"
    and "JSON_parse env data = Inr (JArr docs)"
  shows "table_row file (nat_toString (length docs)) \<in> set (console (listSampleData env w))"
proof -
  let ?dir = "path_resolve env (dirname env) ''../../sample_data''"
  let ?w0 = "console_log [table_header ''| File Name'']
                 (console_log [Str (''Sample Data Files:'' @ [CHR 0x0A])] w)"
  from list_files_listable_prefix[OF assms(2), of "file # post" ?w0]
  obtain w' where w': "list_files env ?dir (pre @ file # post) ?w0 = list_files env ?dir (file # post) w'"
    by blast
  let ?row = "table_row file (nat_toString (length docs))"
  have "list_files env ?dir (file # post) w' =
        list_files env ?dir post (w'\<lparr>console := console w' @ [?row]\<rparr>)"
    unfolding list_files_Cons using assms(3-5) by (simp add: length_toString_def)
  moreover have "?row \<in> set (console (w'\<lparr>console := console w' @ [?row]\<rparr>))"
    by simp
  ultimately have "?row \<in> set (console (snd (list_files env ?dir (pre @ file # post) ?w0)))"
    using list_files_console_grows[of "w'\<lparr>console := console w' @ [?row]\<rparr>" env ?dir post] w'
    by auto
  with listSampleData_console[OF assms(1), of w] show ?thesis by blast
qed

text \<open>
  C8 (amended).  When the directory can be read:
  \<^item> for a regular file whose content parses to a JSON array, \<^verbatim>\<open>listSampleData\<close> prints
    the row with the file's name and the number of elements of that array, provided the
    listing reaches the file, that is no entry before it stops the loop (a failing
    \<^verbatim>\<open>stat\<close>, an unreadable file, one that does not parse or a value without a
    \<^verbatim>\<open>length\<close>);
  \<^item> the first entry that stops the loop ends the listing: the console then holds the
    title, the header, the rows of the entries before that entry and the error, and
    nothing for the entries after it, whatever they are;
  \<^item> in every case the console holds the title, the header, the rows of the entries
    before the first that stops the loop, and the closing line or the error.
\<close>

theorem listSampleData_reports_length:
  assumes "readdir env (path_resolve env (dirname env) ''../../sample_data'') = Inr files"
  shows "(\<forall>pre file post data docs.
            files = pre @ file # post \<and>
            (\<forall>f \<in> set pre. listable env (path_resolve env (dirname env) ''../../sample_data'') f) \<and>
            stat_isFile env
              (path_resolve env (path_resolve env (dirname env) ''../../sample_data'') file) = Inr True \<and>
            readFile env
              (path_resolve env (path_resolve env (dirname env) ''../../sample_data'') file) = Inr data \<and>
            JSON_parse env data = Inr (JArr docs) \<longrightarrow>
            table_row file (nat_toString (length docs)) \<in> set (console (listSampleData env w))) \<and>
         (\<forall>pre bad post e.
            files = pre @ bad # post \<and>
            (\<forall>f \<in> set pre. listable env (path_resolve env (dirname env) ''../../sample_data'') f) \<and>
            entry env (path_resolve env (dirname env) ''../../sample_data'') bad = Inl e \<longrightarrow>
            console (listSampleData env w) =
              console w @
              [ConsoleLog [Str (''Sample Data Files:'' @ [CHR 0x0A])],
               ConsoleLog [table_header ''| File Name'']] @
              listed_rows env (path_resolve env (dirname env) ''../../sample_data'') pre @
              [ConsoleError [Str red, Str (''Error listing sample data: '' @ error_toString e)]]) \<and>
         console (listSampleData env w) =
           console w @
           [ConsoleLog [Str (''Sample Data Files:'' @ [CHR 0x0A])],
            ConsoleLog [table_header ''| File Name'']] @
           listed_rows env (path_resolve env (dirname env) ''../../sample_data'') files @
           [listing_end env (path_resolve env (dirname env) ''../../sample_data'') files]"
proof -
  let ?dir = "path_resolve env (dirname env) ''../../sample_data''"
  note c = listSampleData_console_eq[OF assms, of w]
  have a: "table_row name (nat_toString (length docs)) \<in> set (console (listSampleData env w))"
    if "files = pre @ name # post" "\<forall>f \<in> set pre. listable env ?dir f"
      "stat_isFile env (path_resolve env ?dir name) = Inr True"
      "readFile env (path_resolve env ?dir name) = Inr data"
      "JSON_parse env data = Inr (JArr docs)" for pre name post data docs
    using listSampleData_reaches[of env pre name post data docs w] assms that by simp
  have b: "console (listSampleData env w) =
              console w @
              [ConsoleLog [Str (''Sample Data Files:'' @ [CHR 0x0A])],
               ConsoleLog [table_header ''| File Name'']] @
              listed_rows env ?dir pre @
              [ConsoleError [Str red, Str (''Error listing sample data: '' @ error_toString e)]]"
    if "files = pre @ bad # post" "\<forall>f \<in> set pre. listable env ?dir f"
      "entry env ?dir bad = Inl e" for pre bad post e
    unfolding c using listed_rows_stops[OF that(2,3), of post] that(1) by simp
  from a b c show ?thesis by blast
qed

theorem listSampleData_reports_length_witness:
  "readdir sample_env (path_resolve sample_env (dirname sample_env) ''../../sample_data'') =
     Inr ([''events.json'', ''images''] @ ''users.json'' # []) \<and>
   listable sample_env ''d/../../sample_data'' ''events.json'' \<and>
   listable sample_env ''d/../../sample_data'' ''images'' \<and>
   stat_isFile sample_env ''d/../../sample_data/users.json'' = Inr True \<and>
   readFile sample_env ''d/../../sample_data/users.json'' = Inr ''[{},{}]'' \<and>
   JSON_parse sample_env ''[{},{}]'' = Inr (JArr [JObj [], JObj []]) \<and>
   table_row ''users.json'' ''2'' \<in> set (console (listSampleData sample_env (start stale))) \<and>
   console (listSampleData sample_env (start stale)) =
     [ConsoleLog [Str (''Sample Data Files:'' @ [CHR 0x0A])],
      ConsoleLog [table_header ''| File Name''],
      table_row ''events.json'' ''1'',
      table_row ''users.json'' ''2'',
      ConsoleLog []] \<and>
   readdir stray_env (path_resolve stray_env (dirname stray_env) ''../../sample_data'') =
     Inr ([] @ ''notes.txt'' # [''users.json'']) \<and>
   entry stray_env ''d/../../sample_data'' ''notes.txt'' =
     Inl (Error ''SyntaxError'' ''Unexpected token'') \<and>
   console (listSampleData stray_env (start stale)) =
     [ConsoleLog [Str (''Sample Data Files:'' @ [CHR 0x0A])],
      ConsoleLog [table_header ''| File Name''],
      ConsoleError [Str red, Str ''Error listing sample data: SyntaxError: Unexpected token'']]"
proof -
  have n: "nat_toString (length [JObj [], JObj []]) = ''2''" "nat_toString (length [JObj []]) = ''1''"
    by (simp_all add: nat_toString_Suc)
  have d: "path_resolve sample_env (dirname sample_env) ''../../sample_data'' = ''d/../../sample_data''"
    "path_resolve stray_env (dirname stray_env) ''../../sample_data'' = ''d/../../sample_data''"
    by (simp_all add: sample_env_def stray_env_def)
  have u: "path_resolve sample_env ''d/../../sample_data'' ''users.json'' = ''d/../../sample_data/users.json''"
    by (simp add: sample_env_def)
  have 1: "readdir sample_env (path_resolve sample_env (dirname sample_env) ''../../sample_data'') =
     Inr ([''events.json'', ''images''] @ ''users.json'' # [])"
    by (simp add: sample_env_def)
  have l: "listable sample_env ''d/../../sample_data'' ''events.json''"
    "listable sample_env ''d/../../sample_data'' ''images''"
    "listable sample_env ''d/../../sample_data'' ''users.json''"
    by (simp_all add: sample_env_def listable_def length_toString_def)
  have 3: "stat_isFile sample_env ''d/../../sample_data/users.json'' = Inr True"
    by (simp add: sample_env_def)
  have 4: "readFile sample_env ''d/../../sample_data/users.json'' = Inr ''[{},{}]''"
    by (simp add: sample_env_def)
  have 5: "JSON_parse sample_env ''[{},{}]'' = Inr (JArr [JObj [], JObj []])"
    by (simp add: sample_env_def)
  have e: "entry sample_env ''d/../../sample_data'' ''events.json'' = Inr (Some (table_row ''events.json'' ''1''))"
    "entry sample_env ''d/../../sample_data'' ''images'' = Inr None"
    "entry sample_env ''d/../../sample_data'' ''users.json'' = Inr (Some (table_row ''users.json'' ''2''))"
    by (simp_all add: entry_def sample_env_def length_toString_def nat_toString_Suc)
  have rows: "listed_rows sample_env ''d/../../sample_data'' [''events.json'', ''images'', ''users.json''] =
      [table_row ''events.json'' ''1'', table_row ''users.json'' ''2'']"
    by (simp add: listed_rows_def l e List.map_filter_simps)
  have fin: "listing_end sample_env ''d/../../sample_data'' [''events.json'', ''images'', ''users.json''] =
      ConsoleLog []"
    by (simp add: listing_end_def l)
  note t = listSampleData_reports_length [OF 1, of "start stale"]
  from t have "console (listSampleData sample_env (start stale)) =
     [ConsoleLog [Str (''Sample Data Files:'' @ [CHR 0x0A])],
      ConsoleLog [table_header ''| File Name''],
      table_row ''events.json'' ''1'',
      table_row ''users.json'' ''2'',
      ConsoleLog []]"
    unfolding d by (simp add: rows fin start_def)
  moreover
  have "table_row ''users.json'' (nat_toString (length [JObj [], JObj []]))
      \<in> set (console (listSampleData sample_env (start stale)))"
    using t[THEN conjunct1, rule_format, of "[''events.json'', ''images'']" "''users.json''" "[]"
        "''[{},{}]''" "[JObj [], JObj []]"] l(1,2) 3 4 5
    unfolding d u by simp
  moreover
  have s1: "readdir stray_env (path_resolve stray_env (dirname stray_env) ''../../sample_data'') =
     Inr ([] @ ''notes.txt'' # [''users.json''])"
    by (simp add: stray_env_def sample_env_def)
  have s2: "entry stray_env ''d/../../sample_data'' ''notes.txt'' =
     Inl (Error ''SyntaxError'' ''Unexpected token'')"
    by (simp add: entry_def stray_env_def sample_env_def)
  have "console (listSampleData stray_env (start stale)) =
     [ConsoleLog [Str (''Sample Data Files:'' @ [CHR 0x0A])],
      ConsoleLog [table_header ''| File Name''],
      ConsoleError [Str red, Str ''Error listing sample data: SyntaxError: Unexpected token'']]"
    using listSampleData_reports_length [OF s1, of "start stale", THEN conjunct2, THEN conjunct1,
        rule_format, of "[]" "''notes.txt''" "[''users.json'']"
        "Error ''SyntaxError'' ''Unexpected token''"] s2
    unfolding d by (simp add: listed_rows_def error_toString_def start_def)
  ultimately show ?thesis
    using 1 l(1,2) 3 4 5 s1 s2 unfolding n by simp
qed

text \<open>
  The claim as it is written, for every fixture file of the directory, fails when an
  entry before the file stops the listing: here \<^verbatim>\<open>notes.txt\<close> does not parse, the
  listing ends with the error, and the fixture \<^verbatim>\<open>users.json\<close> behind it, a regular file
  holding an array of two records, is not reported.
\<close>

theorem stray_file_counterexample:
  "readdir stray_env (path_resolve stray_env (dirname stray_env) ''../../sample_data'') =
     Inr [''notes.txt'', ''users.json''] \<and>
   stat_isFile stray_env ''d/../../sample_data/users.json'' = Inr True \<and>
   readFile stray_env ''d/../../sample_data/users.json'' = Inr ''[{},{}]'' \<and>
   JSON_parse stray_env ''[{},{}]'' = Inr (JArr [JObj [], JObj []]) \<and>
   console (listSampleData stray_env (start stale)) =
     [ConsoleLog [Str (''Sample Data Files:'' @ [CHR 0x0A])],
      ConsoleLog [table_header ''| File Name''],
      ConsoleError [Str red, Str ''Error listing sample data: SyntaxError: Unexpected token'']] \<and>
   table_row ''users.json'' ''2'' \<notin> set (console (listSampleData stray_env (start stale)))"
proof -
  have c: "console (listSampleData stray_env (start stale)) =
     [ConsoleLog [Str (''Sample Data Files:'' @ [CHR 0x0A])],
      ConsoleLog [table_header ''| File Name''],
      ConsoleError [Str red, Str ''Error listing sample data: SyntaxError: Unexpected token'']]"
    by (simp add: listSampleData_def listSampleData_try_def await_beta list_files_Cons
        stray_env_def sample_env_def console_log_def console_error_def error_toString_def
        start_def del: list_files.simps)
  have "table_row ''users.json'' ''2'' \<notin> set (console (listSampleData stray_env (start stale)))"
    unfolding c table_row_users_2 by (simp add: table_header_def)
  with c show ?thesis
    by (simp add: stray_env_def sample_env_def)
qed

subsection \<open>C2: a name the switch does not know\<close>

text \<open>
  C2 (the code departs from the claim).  The claim is that a name outside the nine is
  reported, nothing is inserted for it and the loop goes on.  The loop reads and parses
  \<^verbatim>\<open>sample_data/<name>.json\<close> before it reaches the \<^verbatim>\<open>switch\<close>, and a name that is no
  collection has, as a rule, no such file.  Here the list is \<^verbatim>\<open>bogus,users\<close> and there is
  no \<^verbatim>\<open>bogus.json\<close>: \<^verbatim>\<open>readFile\<close> throws, the \<^verbatim>\<open>default\<close> branch is never reached, no
  message names the invalid collection, the loop ends and the users are not loaded.
  (When the file of such a name can be read and parsed, the name is reported and the loop
  goes on: lemma \<open>insert_each_invalid_name\<close>.)
\<close>

theorem unknown_name_without_fixture_ends_load:
  "model_of ''bogus'' = None \<and>
   fixture sample_env ''users'' = Inr (JArr [JObj [], JObj []]) \<and>
   console (insertCollections sample_env [''bogus'', ''users''] (start stale)) =
     [ConsoleLog [Str ''Database reset completed.''],
      ConsoleError [Str red, Str ''Error adding collections: Error: ENOENT'']] \<and>
   db (insertCollections sample_env [''bogus'', ''users''] (start stale)) User = []"
proof -
  let ?w2 = "snd (resetDatabase sample_env (snd (connect sample_env ''talawa-api'' (start stale))))"
  have r: "fst (resetDatabase sample_env (snd (connect sample_env ''talawa-api'' (start stale)))) = Inr ()"
    by (simp add: resetDatabase_fst sample_env_no_fault)
  have "insertCollections_try sample_env [''bogus'', ''users''] (start stale) =
      (Inl (Error ''Error'' ''ENOENT''), ?w2)"
    by (simp add: insertCollections_try_def await_beta connect_fst connect_sample r
        insert_each_no_fixture[OF fixture_bogus])
  then have i: "insertCollections sample_env [''bogus'', ''users''] (start stale) =
      (console_error [Str red, Str (''Error adding collections: '' @
          error_toString (Error ''Error'' ''ENOENT''))] ?w2)\<lparr>exit_code := Some 0\<rparr>"
    by (simp add: insertCollections_def)
  have c: "console ?w2 = [ConsoleLog [Str ''Database reset completed.'']]"
    by (simp add: resetDatabase_console sample_env_no_fault connect_snd start_def)
  have d: "db ?w2 User = []"
    by (rule resetDatabase_success_db[OF r])
  have "model_of ''bogus'' = None" by (simp add: model_of_def)
  with c d sample_fixtures(1) show ?thesis
    unfolding i by (simp add: console_error_def error_toString_def)
qed

subsection \<open>C3: the counts after a load\<close>

text \<open>
  C3 (amended).  After a load that succeeds, the collection of a name the switch knows,
  whose fixture is a JSON array, holds as many documents as the fixture has records,
  once for every occurrence of the name in the list: the count equals the number of
  records when the name is listed once (and is 0 when it is not listed).
\<close>

theorem load_count_by_occurrences:
  assumes "fst (insertCollections_try env names w) = Inr ()"
    and "model_of c = Some m"
    and "fixture env c = Inr (JArr docs)"
  shows "length (db (insertCollections env names w) m) = count_list names c * length docs"
  using insertCollections_try_success_length[OF assms(1), of m] sum_loaded_count[OF assms(2,3), of names]
  by (simp add: db_insertCollections records_of_def)

theorem load_count_by_occurrences_witness:
  "fst (insertCollections_try sample_env [''users'', ''events''] (start stale)) = Inr () \<and>
   model_of ''users'' = Some User \<and>
   fixture sample_env ''users'' = Inr (JArr [JObj [], JObj []]) \<and>
   length (db (insertCollections sample_env [''users'', ''events''] (start stale)) User) = 2"
  using load_count_by_occurrences [OF load_sample_users_events(1) model_of_users_events(1)
      sample_fixtures(1)]
    load_sample_users_events(1) model_of_users_events(1) sample_fixtures(1)
  by simp

text \<open>
  The claim as it is written fails when a name is listed twice and both inserts
  succeed: the list \<^verbatim>\<open>users,users\<close> leaves four users for a fixture of two records.
\<close>

theorem repeated_name_counterexample:
  "fst (insertCollections_try sample_env [''users'', ''users''] (start stale)) = Inr () \<and>
   model_of ''users'' = Some User \<and>
   fixture sample_env ''users'' = Inr (JArr [JObj [], JObj []]) \<and>
   length [JObj [], JObj []] = 2 \<and>
   length (db (insertCollections sample_env [''users'', ''users''] (start stale)) User) = 4"
proof -
  from insertCollections_try_success_length[OF load_sample_users_events(2), of User]
    sum_loaded_count[OF model_of_users_events(1) sample_fixtures(1), of "[''users'', ''users'']"]
  have "length (db (insertCollections sample_env [''users'', ''users''] (start stale)) User) = 4"
    by (simp add: db_insertCollections records_of_def)
  with load_sample_users_events(2) model_of_users_events(1) sample_fixtures(1) show ?thesis by simp
qed

subsection \<open>C4: running the pipeline twice\<close>

text \<open>
  C4.  In one outside world (the same fixture files, and a driver that answers the same
  way) a second run with the same selection leaves the database exactly as the first
  run left it, whatever the first run started from: the reset of the second run clears
  what the first one stored, and runs that fail do so at the same step.  When the
  driver answers differently in the second run, the counts of every collection are
  still the same, provided the fixture files are the same and the reset and the load
  succeed in both runs.
\<close>

theorem two_runs_same_counts:
  "run env argvItems (run env argvItems d) = run env argvItems d \<and>
   (dirname env2 = dirname env \<and> path_resolve env2 = path_resolve env \<and>
    readFile env2 = readFile env \<and> JSON_parse env2 = JSON_parse env \<and>
    load_ok env argvItems d \<and> load_ok env2 argvItems (run env argvItems d) \<longrightarrow>
      (\<forall>m. length (run env2 argvItems (run env argvItems d) m) = length (run env argvItems d m)))"
proof -
  have same: "run env argvItems (run env argvItems d) = run env argvItems d"
    by (auto simp: run_eq [of env argvItems] fun_eq_iff split: option.splits)
  have counts: "length (run env2 argvItems (run env argvItems d) m) = length (run env argvItems d m)"
    if f: "dirname env2 = dirname env" "path_resolve env2 = path_resolve env"
      "readFile env2 = readFile env" "JSON_parse env2 = JSON_parse env"
      and l1: "load_ok env argvItems d" and l2: "load_ok env2 argvItems (run env argvItems d)" for m
  proof -
    have "length (run env argvItems d m) = sum_list (map (loaded env m) (selected argvItems))"
      using insertCollections_try_success_length[of env "selected argvItems" _ m] l1
      by (simp add: run_def load_ok_def db_main)
    moreover have "length (run env2 argvItems (run env argvItems d) m) =
        sum_list (map (loaded env2 m) (selected argvItems))"
      using insertCollections_try_success_length[of env2 "selected argvItems" _ m] l2
      by (simp add: run_def load_ok_def db_main)
    ultimately show ?thesis
      by (simp add: loaded_same_fixtures[OF f])
  qed
  from same counts show ?thesis by blast
qed

theorem two_runs_same_counts_witness:
  "load_ok sample_env (Some ''users,events'') stale \<and>
   load_ok sample_env (Some ''users,events'') (run sample_env (Some ''users,events'') stale) \<and>
   length (stale User) = 1 \<and>
   length (run sample_env (Some ''users,events'') stale User) = 2 \<and>
   length (run sample_env (Some ''users,events'') (run sample_env (Some ''users,events'') stale) User) = 2 \<and>
   run sample_env (Some ''users,events'') (run sample_env (Some ''users,events'') stale) =
     run sample_env (Some ''users,events'') stale"
  using two_runs_same_counts [of sample_env "Some ''users,events''" stale sample_env]
    load_ok_sample run_sample_users
  by (simp add: stale_def)

subsection \<open>C6: the selection \<^verbatim>\<open>users,events\<close>\<close>

text \<open>
  C6.  A run with \<^verbatim>\<open>--items users,events\<close> loads the list \<^verbatim>\<open>users\<close>, \<^verbatim>\<open>events\<close>.
  \<^item> Whatever happens, its calls of \<^verbatim>\<open>insertMany\<close> are none, one on User, or one on User
    and then one on Event: no other collection is inserted into.
  \<^item> When \<^verbatim>\<open>connect\<close> and the reset succeed, every collection but those two is empty
    at the end, whatever it held before and whether or not the load succeeds.
  \<^item> When the load succeeds too and the verification queries answer, both inserts
    are made and the verification prints a row for each of its nine collections with
    the count of that collection, which is 0 for the seven that were not selected.
\<close>

theorem users_events_selection:
  "selected (Some ''users,events'') = [''users'', ''events''] \<and>
   inserts (calls (main env (Some ''users,events'') (start d))) \<in> {[], [User], [User, Event]} \<and>
   (connect_fault env 0 = None \<and> reset_fault env = None \<longrightarrow>
      (\<forall>m. m \<noteq> User \<and> m \<noteq> Event \<longrightarrow> run env (Some ''users,events'') d m = [])) \<and>
   (load_ok env (Some ''users,events'') d \<and> connect_fault env 1 = None \<and>
    (\<forall>m. countDocuments_fault env m = None) \<longrightarrow>
      inserts (calls (main env (Some ''users,events'') (start d))) = [User, Event] \<and>
      length count_table = 9 \<and>
      (\<forall>(name, m) \<in> set count_table.
         table_row name (nat_toString (length (run env (Some ''users,events'') d m)))
           \<in> set (console (main env (Some ''users,events'') (start d)))) \<and>
      (\<forall>(name, m) \<in> set count_table. m \<noteq> User \<and> m \<noteq> Event \<longrightarrow>
         table_row name ''0'' \<in> set (console (main env (Some ''users,events'') (start d)))))"
proof -
  let ?names = "[''users'', ''events'']"
  let ?w0 = "listSampleData env (start d)"
  let ?w1 = "snd (connect env ''talawa-api'' ?w0)"
  let ?w2 = "snd (resetDatabase env ?w1)"
  let ?w3 = "snd (insert_each env ?names ?w2)"
  let ?final = "main env (Some ''users,events'') (start d)"
  have w0: "calls ?w0 = []" "connect_calls ?w0 = 0"
    by (simp_all add: calls_listSampleData connect_calls_listSampleData start_def)
  \<comment> \<open>which inserts are made, whatever happens\<close>
  from inserts_insertCollections_try_prefix[of env ?names ?w0] obtain j where
    "inserts (calls ?final) = List.map_filter model_of (take j ?names)"
    by (auto simp: calls_main selected_users_events w0)
  with take_two_cases[of j "''users''" "''events''"]
  have any: "inserts (calls ?final) \<in> {[], [User], [User, Event]}"
    by (auto simp: List.map_filter_simps model_of_users_events)
  \<comment> \<open>after a reset that succeeds\<close>
  have other: "\<forall>c \<in> set ?names. model_of c \<noteq> Some m" if "m \<noteq> User" "m \<noteq> Event" for m
    using that by (auto simp: model_of_users_events)
  have empty: "run env (Some ''users,events'') d m = []"
    if "connect_fault env 0 = None" "reset_fault env = None" "m \<noteq> User" "m \<noteq> Event" for m
    using db_try_after_reset[of env ?w0 ?names m] that other[of m]
    by (simp add: run_def db_main selected_users_events w0)
  \<comment> \<open>after a load that succeeds\<close>
  have scenario: "inserts (calls ?final) = [User, Event] \<and>
      (\<forall>(name, m) \<in> set count_table.
         table_row name (nat_toString (length (run env (Some ''users,events'') d m)))
           \<in> set (console ?final)) \<and>
      (\<forall>(name, m) \<in> set count_table. m \<noteq> User \<and> m \<noteq> Event \<longrightarrow>
         table_row name ''0'' \<in> set (console ?final))"
    if l: "load_ok env (Some ''users,events'') d" and c1: "connect_fault env 1 = None"
      and cd: "\<forall>m. countDocuments_fault env m = None"
  proof -
    from l have ok: "fst (insertCollections_try env ?names ?w0) = Inr ()"
      by (simp add: load_ok_def selected_users_events)
    note s = insertCollections_try_success[OF ok]
    from s(2) have ss: "startSession_fault env = None"
      by (simp add: reset_fault_def split: option.splits)
    have final: "?final = (console_log [Str (CHR 0x0A # ''Collections added successfully'')]
               (checkCountAfterImport env ?w3))\<lparr>exit_code := Some 0\<rparr>"
      using ok s(4) by (simp add: main_def selected_users_events insertCollections_def case_prod_beta)
    have "inserts (calls ?w1) = []"
      by (simp add: connect_snd inserts_append w0)
    with inserts_resetDatabase[OF ss, of ?w1] inserts_insert_each[OF s(3)]
    have "inserts (calls ?w3) = [User, Event]"
      by (simp add: model_of_users_events)
    then have ins: "inserts (calls ?final) = [User, Event]"
      unfolding final by (simp add: console_log_def inserts_checkCountAfterImport)
    from s(1,2) have z: "run env (Some ''users,events'') d m = []" if "m \<noteq> User" "m \<noteq> Event" for m
      using empty[of m] that by (simp add: w0)
    have cc: "connect_calls ?w3 = 1"
      by (simp add: insert_each_frame resetDatabase_frame connect_snd w0)
    have dbf: "db ?final = db ?w3"
      unfolding final by (simp add: console_log_def checkCountAfterImport_frame)
    have "console ?final = console ?w3 @
       [ConsoleLog [Str (CHR 0x0A # ''Document Counts After Import:'' @ [CHR 0x0A])],
        ConsoleLog [table_header ''| Collection Name'']] @
       count_rows (db ?w3) @ [ConsoleLog [Str (CHR 0x0A # ''Collections added successfully'')]]"
      unfolding final using checkCountAfterImport_console[of env ?w3] c1 cd cc
      by (simp add: console_log_def)
    then have "set (count_rows (db ?w3)) \<subseteq> set (console ?final)"
      by auto
    then have "set (count_rows (run env (Some ''users,events'') d)) \<subseteq> set (console ?final)"
      by (simp only: run_def dbf)
    then have rows: "\<forall>(name, m) \<in> set count_table.
              table_row name (nat_toString (length (run env (Some ''users,events'') d m)))
                \<in> set (console ?final)"
      by (auto simp: count_rows_def)
    then have "\<forall>(name, m) \<in> set count_table. m \<noteq> User \<and> m \<noteq> Event \<longrightarrow>
              table_row name ''0'' \<in> set (console ?final)"
      using z by (auto simp: nat_toString_0)
    with ins rows show ?thesis by blast
  qed
  from any empty scenario show ?thesis
    by (simp add: selected_users_events length_count_table)
qed

theorem users_events_selection_witness:
  "connect_fault sample_env 0 = None \<and> reset_fault sample_env = None \<and>
   load_ok sample_env (Some ''users,events'') stale \<and>
   connect_fault sample_env 1 = None \<and>
   (\<forall>m. countDocuments_fault sample_env m = None) \<and>
   inserts (calls (main sample_env (Some ''users,events'') (start stale))) = [User, Event] \<and>
   stale Organization = [JStr ''old''] \<and>
   run sample_env (Some ''users,events'') stale Organization = [] \<and>
   table_row ''users'' ''2'' \<in> set (console (main sample_env (Some ''users,events'') (start stale))) \<and>
   table_row ''organizations'' ''0''
     \<in> set (console (main sample_env (Some ''users,events'') (start stale)))"
proof -
  have c: "\<forall>m. countDocuments_fault sample_env m = None"
    by (simp add: count_faults_sample)
  note t = users_events_selection [of sample_env stale]
  have u: "(''users'', User) \<in> set count_table" and o: "(''organizations'', Organization) \<in> set count_table"
    by (simp_all add: count_table_def)
  from t load_ok_sample[of stale] connect_sample[of 1] c
  have s: "inserts (calls (main sample_env (Some ''users,events'') (start stale))) = [User, Event]"
    and r: "\<forall>(name, m) \<in> set count_table.
         table_row name (nat_toString (length (run sample_env (Some ''users,events'') stale m)))
           \<in> set (console (main sample_env (Some ''users,events'') (start stale)))"
    and z: "\<forall>(name, m) \<in> set count_table. m \<noteq> User \<and> m \<noteq> Event \<longrightarrow>
         table_row name ''0'' \<in> set (console (main sample_env (Some ''users,events'') (start stale)))"
    by blast+
  from r u have "table_row ''users'' (nat_toString (length (run sample_env (Some ''users,events'') stale User)))
      \<in> set (console (main sample_env (Some ''users,events'') (start stale)))"
    by blast
  then have 1: "table_row ''users'' ''2'' \<in> set (console (main sample_env (Some ''users,events'') (start stale)))"
    by (simp only: run_sample_users nat_toString_2)
  from z o have 2: "table_row ''organizations'' ''0''
     \<in> set (console (main sample_env (Some ''users,events'') (start stale)))"
    by blast
  from t connect_sample[of 0] sample_env_no_fault(1)
  have 3: "run sample_env (Some ''users,events'') stale Organization = []"
    by simp
  from 1 2 3 s c load_ok_sample[of stale] connect_sample sample_env_no_fault(1) show ?thesis
    by (simp add: stale_def)
qed

end
